theory Spec2Isabelle
  imports Complex_Main
begin

section \<open>Python values, strings and library parameters\<close>

text \<open>
  A Python \<open>str\<close> is a sequence of Unicode code points, so a string is a list of
  natural numbers (the code points). \<open>ustr\<close> turns an ASCII literal into such a list.
\<close>

type_synonym ustring = "nat list"

definition ustr :: "string \<Rightarrow> ustring" where
  "ustr s = map of_char s"

text \<open>
  The values that occur in a cell of the data frame, in a query argument and in a field
  of a result: \<open>None\<close>, the float \<open>nan\<close>, a finite number and a \<open>str\<close>.
\<close>

datatype pyval = PyNone | NaN | Num real | Str ustring

datatype py_error =
  FileNotFoundError | LoadError | ValueError | TypeError | IndexError | KeyError

type_synonym row = "(ustring \<times> pyval) list"

record dataframe =
  columns :: "ustring list"
  rows :: "row list"

text \<open>
  The code calls pandas, numpy, scikit-learn and the Python runtime. What those libraries
  compute is a parameter of the model:
  \<^item> \<open>unicode_lower s i\<close>: the lower-casing by \<open>str.lower\<close> of the non-ASCII code point
    at position \<open>i\<close> of \<open>s\<close> (it may depend on the context, as for the Greek final sigma,
    and may yield ASCII, as for the Kelvin sign);
  \<^item> \<open>str_of_num\<close>: \<open>str\<close> of a float; \<open>float_of_str\<close> and \<open>int_of_str\<close>: \<open>float\<close> and
    \<open>int\<close> of a string, \<open>None\<close> where Python raises \<open>ValueError\<close>;
  \<^item> \<open>pd_read_csv\<close>: the data frame read from a path, or the exception;
  \<^item> \<open>sk_fit_transform\<close>: \<open>TfidfVectorizer(ngram_range=(1, 2), max_features=20000)\<close>
    fitted on the texts: the fitted projection of one text and the document matrix
    (one vector per text), or the exception; \<open>sk_dot\<close>: the entry of \<open>linear_kernel\<close>
    for two vectors;
  \<^item> \<open>np_argpartition\<close> and \<open>np_argsort\<close>: the index arrays numpy returns (which order
    equal keys take is numpy's choice);
  \<^item> \<open>json_encodable\<close>: whether the JSON encoder of \<open>jsonify\<close> accepts a cell of the data
    frame as it is (it raises \<open>TypeError\<close> on, for example, an integer of numpy).
\<close>

record 'v pylib =
  unicode_lower :: "ustring \<Rightarrow> nat \<Rightarrow> ustring"
  str_of_num :: "real \<Rightarrow> ustring"
  float_of_str :: "ustring \<Rightarrow> real option"
  int_of_str :: "ustring \<Rightarrow> int option"
  pd_read_csv :: "ustring \<Rightarrow> py_error + dataframe"
  sk_fit_transform :: "ustring list \<Rightarrow> py_error + ((ustring \<Rightarrow> 'v) \<times> 'v list)"
  sk_dot :: "'v \<Rightarrow> 'v \<Rightarrow> real"
  np_argpartition :: "real list \<Rightarrow> nat list \<Rightarrow> nat list"
  np_argsort :: "real list \<Rightarrow> nat list"
  json_encodable :: "pyval \<Rightarrow> bool"

text \<open>\<open>pd.isna\<close> on a scalar, \<open>str(x)\<close>, and the truth value of an optional string.\<close>

definition isna :: "pyval \<Rightarrow> bool" where
  "isna v = (case v of PyNone \<Rightarrow> True | NaN \<Rightarrow> True | Num r \<Rightarrow> False | Str s \<Rightarrow> False)"

definition py_str :: "'v pylib \<Rightarrow> pyval \<Rightarrow> ustring" where
  "py_str L v =
     (case v of
        PyNone \<Rightarrow> ustr ''None''
      | NaN \<Rightarrow> ustr ''nan''
      | Num r \<Rightarrow> str_of_num L r
      | Str s \<Rightarrow> s)"

definition truthy :: "ustring option \<Rightarrow> bool" where
  "truthy v = (case v of None \<Rightarrow> False | Some s \<Rightarrow> s \<noteq> [])"

definition py_or :: "ustring option \<Rightarrow> ustring option \<Rightarrow> ustring option" where
  "py_or a b = (if truthy a then a else b)"

section \<open>The text normalizer: \<open>Recommender._clean_text\<close>\<close>

text \<open>The character class \<open>[a-z0-9 ]\<close> of the first pattern.\<close>

definition in_az09sp :: "nat \<Rightarrow> bool" where
  "in_az09sp c = ((97 \<le> c \<and> c \<le> 122) \<or> (48 \<le> c \<and> c \<le> 57) \<or> c = 32)"

text \<open>
  The class \<open>\s\<close> of a \<open>str\<close> pattern, which is also what \<open>str.strip()\<close> removes: the
  code points for which \<open>str.isspace\<close> holds.
\<close>

definition is_space :: "nat \<Rightarrow> bool" where
  "is_space c =
     ((9 \<le> c \<and> c \<le> 13) \<or> (28 \<le> c \<and> c \<le> 32) \<or> c = 133 \<or> c = 160 \<or> c = 5760
      \<or> (8192 \<le> c \<and> c \<le> 8202) \<or> c = 8232 \<or> c = 8233 \<or> c = 8239 \<or> c = 8287
      \<or> c = 12288)"

text \<open>
  \<open>str.lower\<close>: an ASCII capital becomes its small letter, any other ASCII code point
  stays, a non-ASCII code point becomes what the Unicode tables say.
\<close>

definition lower_at :: "(ustring \<Rightarrow> nat \<Rightarrow> ustring) \<Rightarrow> ustring \<Rightarrow> nat \<Rightarrow> ustring" where
  "lower_at U s i =
     (let c = s ! i in
      if 65 \<le> c \<and> c \<le> 90 then [c + 32]
      else if c < 128 then [c]
      else U s i)"

definition str_lower :: "(ustring \<Rightarrow> nat \<Rightarrow> ustring) \<Rightarrow> ustring \<Rightarrow> ustring" where
  "str_lower U s = concat (map (lower_at U s) [0..<length s])"

text \<open>
  \<open>re.sub(r"[cls]+", repl, s)\<close> for a character class: the scan goes from left to right;
  where the class matches, the greedy \<open>+\<close> takes every following character of the class,
  the match is replaced by \<open>repl\<close> and the scan goes on behind it.
\<close>

function re_sub_plus :: "(nat \<Rightarrow> bool) \<Rightarrow> ustring \<Rightarrow> ustring \<Rightarrow> ustring" where
  "re_sub_plus cls repl [] = []"
| "re_sub_plus cls repl (c # cs) =
     (if cls c then repl @ re_sub_plus cls repl (dropWhile cls cs)
      else c # re_sub_plus cls repl cs)"
  by pat_completeness auto
termination
  by (relation "measure (\<lambda>(cls, repl, s). length s)")
     (auto simp: le_imp_less_Suc length_dropWhile_le)

definition strip :: "ustring \<Rightarrow> ustring" where
  "strip s = rev (dropWhile is_space (rev (dropWhile is_space s)))"

definition clean_text :: "'v pylib \<Rightarrow> pyval \<Rightarrow> ustring" where
  "clean_text L s =
     (if isna s then []
      else
        let s1 = str_lower (unicode_lower L) (py_str L s);
            s2 = re_sub_plus (\<lambda>c. \<not> in_az09sp c) [32] s1
        in strip (re_sub_plus is_space [32] s2))"

subsection \<open>The normalizer as the specification words it\<close>

text \<open>
  The maximal runs of a string for a class: the string cut wherever membership in the
  class changes.
\<close>

fun runs :: "('a \<Rightarrow> bool) \<Rightarrow> 'a list \<Rightarrow> 'a list list" where
  "runs P [] = []"
| "runs P (x # xs) =
     (case runs P xs of
        [] \<Rightarrow> [[x]]
      | r # rs \<Rightarrow> if P x = P (hd r) then (x # r) # rs else [x] # r # rs)"

definition replace_runs :: "('a \<Rightarrow> bool) \<Rightarrow> 'a list \<Rightarrow> 'a list \<Rightarrow> 'a list" where
  "replace_runs P repl s = concat (map (\<lambda>r. if P (hd r) then repl else r) (runs P s))"

definition normalize_spec :: "'v pylib \<Rightarrow> pyval \<Rightarrow> ustring" where
  "normalize_spec L s =
     (if isna s then []
      else
        let lowered = str_lower (unicode_lower L) (py_str L s);
            replaced = replace_runs (\<lambda>c. \<not> in_az09sp c) [32] lowered;
            collapsed = replace_runs is_space [32] replaced
        in strip collapsed)"

text \<open>A string in which no two neighbours are both in the class.\<close>

fun squeezed :: "('a \<Rightarrow> bool) \<Rightarrow> 'a list \<Rightarrow> bool" where
  "squeezed P [] = True"
| "squeezed P [x] = True"
| "squeezed P (x # y # zs) = (\<not> (P x \<and> P y) \<and> squeezed P (y # zs))"

text \<open>
  What the normalizer returns consists of \<open>[a-z0-9 ]\<close> only, has no two spaces in a row
  and neither starts nor ends with a space.
\<close>

definition normal_form :: "ustring \<Rightarrow> bool" where
  "normal_form t =
     (list_all in_az09sp t \<and> squeezed is_space t
      \<and> (t = [] \<or> (\<not> is_space (hd t) \<and> \<not> is_space (last t))))"

section \<open>Column detection: \<open>Recommender._detect_columns\<close>\<close>

fun is_prefix :: "'a list \<Rightarrow> 'a list \<Rightarrow> bool" where
  "is_prefix [] ys = True"
| "is_prefix (x # xs) [] = False"
| "is_prefix (x # xs) (y # ys) = (x = y \<and> is_prefix xs ys)"

text \<open>\<open>sub in s\<close> for strings.\<close>

fun contains :: "'a list \<Rightarrow> 'a list \<Rightarrow> bool" where
  "contains sub [] = (sub = [])"
| "contains sub (c # cs) = (is_prefix sub (c # cs) \<or> contains sub cs)"

text \<open>
  One \<open>for cand in (...)\<close> loop: the first candidate that is a key of \<open>cols\<close> decides,
  and the loop breaks.
\<close>

fun first_candidate :: "(ustring \<Rightarrow> ustring option) \<Rightarrow> ustring list \<Rightarrow> ustring option" where
  "first_candidate cols [] = None"
| "first_candidate cols (cand # cands) =
     (case cols cand of Some c \<Rightarrow> Some c | None \<Rightarrow> first_candidate cols cands)"

definition entry :: "string \<Rightarrow> ustring option \<Rightarrow> (ustring \<times> ustring) list" where
  "entry k v = (case v of None \<Rightarrow> [] | Some c \<Rightarrow> [(ustr k, c)])"

text \<open>
  The dictionary \<open>cols\<close> is built by a comprehension, so of two columns with the same
  lower-cased name the later one stays. The returned dictionary is an association list.
\<close>

definition detect_columns :: "'v pylib \<Rightarrow> dataframe \<Rightarrow> (ustring \<times> ustring) list" where
  "detect_columns L d =
     (let lower = str_lower (unicode_lower L);
          cols = map_of (rev (map (\<lambda>c. (lower c, c)) (columns d)));
          m_title = first_candidate cols
            [ustr ''title'', ustr ''course_title'', ustr ''course name'', ustr ''name''];
          m_url = first_candidate cols
            [ustr ''url'', ustr ''course_url'', ustr ''link'', ustr ''course link''];
          m_rating = first_candidate cols
            [ustr ''rating'', ustr ''avg_rating'', ustr ''avg rating'', ustr ''reviews''];
          descs = filter (\<lambda>c. contains (ustr ''desc'') (lower c)
                            \<or> contains (ustr ''headline'') (lower c)
                            \<or> contains (ustr ''subtitle'') (lower c)) (columns d);
          m_desc = (case descs of [] \<Rightarrow> None | c # cs \<Rightarrow> Some c)
      in entry ''title'' m_title @ entry ''url'' m_url @ entry ''rating'' m_rating
         @ entry ''desc'' m_desc)"

section \<open>Loading the corpus: \<open>Recommender.__init__\<close> and \<open>_load_data\<close>\<close>

record 'v recommender =
  csv_path :: ustring
  df :: dataframe
  vectorizer :: "ustring \<Rightarrow> 'v"
  tfidf_matrix :: "'v list"
  text_fields :: "ustring list option"
  url_col :: "ustring option"
  rating_col :: "ustring option"
  mapping :: "(ustring \<times> ustring) list"

text \<open>
  Operations on a column (a pandas Series of objects), element by element:
  \<open>astype(str)\<close> applies \<open>str\<close> to every element, a missing one included;
  \<open>fillna("")\<close> replaces the missing elements; \<open>+\<close> concatenates strings and leaves a
  missing element missing.
\<close>

definition astype_str :: "'v pylib \<Rightarrow> pyval \<Rightarrow> pyval" where
  "astype_str L v = Str (py_str L v)"

definition fillna :: "ustring \<Rightarrow> pyval \<Rightarrow> pyval" where
  "fillna e v = (if isna v then Str e else v)"

fun str_add :: "pyval \<Rightarrow> pyval \<Rightarrow> pyval" where
  "str_add (Str a) (Str b) = Str (a @ b)"
| "str_add a b = NaN"

text \<open>\<open>d[c]\<close> and \<open>d[c] = vs\<close> on a data frame; a row too short for a column reads as \<open>nan\<close>.\<close>

definition get_column :: "dataframe \<Rightarrow> ustring \<Rightarrow> py_error + pyval list" where
  "get_column d c =
     (if c \<in> set (columns d)
      then Inr (map (\<lambda>r. case map_of r c of Some v \<Rightarrow> v | None \<Rightarrow> NaN) (rows d))
      else Inl KeyError)"

fun row_set :: "ustring \<Rightarrow> pyval \<Rightarrow> row \<Rightarrow> row" where
  "row_set k v [] = [(k, v)]"
| "row_set k v ((k', v') # r) = (if k = k' then (k, v) # r else (k', v') # row_set k v r)"

definition set_column :: "dataframe \<Rightarrow> ustring \<Rightarrow> pyval list \<Rightarrow> dataframe" where
  "set_column d c vs =
     \<lparr>columns = (if c \<in> set (columns d) then columns d else columns d @ [c]),
      rows = map (\<lambda>(r, v). row_set c v r) (zip (rows d) vs)\<rparr>"

text \<open>
  Lines 95 to 99: the combined text of every row, from the \<open>__title__\<close> column and,
  when a description column was detected, from that column.
\<close>

definition build_combined :: "'v pylib \<Rightarrow> pyval list \<Rightarrow> pyval list option \<Rightarrow> ustring list" where
  "build_combined L title_ser desc_ser =
     (let combined = map (fillna []) title_ser;
          combined' =
            (case desc_ser of
               None \<Rightarrow> combined
             | Some ds \<Rightarrow>
                 map (\<lambda>(a, b). str_add a b)
                   (zip (map (\<lambda>a. str_add a (Str [32])) combined)
                        (map (fillna []) (map (astype_str L) ds))))
      in map (clean_text L) combined')"

text \<open>\<open>mapping.get("title") or df.columns[0]\<close>.\<close>

definition choose_title_col :: "(ustring \<times> ustring) list \<Rightarrow> dataframe \<Rightarrow> py_error + ustring" where
  "choose_title_col m d =
     (case map_of m (ustr ''title'') of
        Some c \<Rightarrow>
          (if c \<noteq> [] then Inr c
           else (case columns d of [] \<Rightarrow> Inl IndexError | c0 # cs \<Rightarrow> Inr c0))
      | None \<Rightarrow> (case columns d of [] \<Rightarrow> Inl IndexError | c0 # cs \<Rightarrow> Inr c0))"

text \<open>The description column, read only \<open>if desc_col:\<close>.\<close>

definition desc_series :: "'v pylib \<Rightarrow> dataframe \<Rightarrow> ustring option \<Rightarrow> py_error + pyval list option" where
  "desc_series L d desc_col =
     (if truthy desc_col
      then (case desc_col of
              None \<Rightarrow> Inr None
            | Some c \<Rightarrow> (case get_column d c of Inl e \<Rightarrow> Inl e | Inr ds \<Rightarrow> Inr (Some ds)))
      else Inr None)"

text \<open>
  The constructor with \<open>_load_data\<close>: every exception of the body leaves the constructor,
  and no object is returned then.
\<close>

definition Recommender_init ::
    "'v pylib \<Rightarrow> ustring \<Rightarrow> ustring list option \<Rightarrow> py_error + 'v recommender" where
  "Recommender_init L path tfields =
     (case pd_read_csv L path of
        Inl e \<Rightarrow> Inl e
      | Inr d \<Rightarrow>
          let m = detect_columns L d in
          (case choose_title_col m d of
             Inl e \<Rightarrow> Inl e
           | Inr title_col \<Rightarrow>
               (case get_column d title_col of
                  Inl e \<Rightarrow> Inl e
                | Inr tcol \<Rightarrow>
                    let d1 = set_column d (ustr ''__title__'') (map (astype_str L) tcol) in
                    (case get_column d1 (ustr ''__title__'') of
                       Inl e \<Rightarrow> Inl e
                     | Inr title_ser \<Rightarrow>
                         (case desc_series L d1 (map_of m (ustr ''desc'')) of
                            Inl e \<Rightarrow> Inl e
                          | Inr desc_ser \<Rightarrow>
                              (case sk_fit_transform L (build_combined L title_ser desc_ser) of
                                 Inl e \<Rightarrow> Inl e
                               | Inr (vec, mat) \<Rightarrow>
                                   Inr \<lparr>csv_path = path, df = d1, vectorizer = vec,
                                        tfidf_matrix = mat, text_fields = tfields,
                                        url_col = map_of m (ustr ''url''),
                                        rating_col = map_of m (ustr ''rating''),
                                        mapping = m\<rparr>))))))"

section \<open>Answering a query: \<open>Recommender.recommend\<close>\<close>

record result =
  title :: pyval
  score :: real
  rating :: pyval
  url :: pyval

text \<open>
  \<open>float(x)\<close>; indexing an array with an index array, which raises when an index is out
  of range; \<open>np.argpartition\<close>, which raises when an element of \<open>kth\<close> is.
\<close>

definition py_float :: "'v pylib \<Rightarrow> pyval \<Rightarrow> py_error + pyval" where
  "py_float L v =
     (case v of
        PyNone \<Rightarrow> Inl TypeError
      | NaN \<Rightarrow> Inr NaN
      | Num r \<Rightarrow> Inr (Num r)
      | Str s \<Rightarrow> (case float_of_str L s of None \<Rightarrow> Inl ValueError | Some r \<Rightarrow> Inr (Num r)))"

definition take_idx :: "'a list \<Rightarrow> nat list \<Rightarrow> py_error + 'a list" where
  "take_idx a idx =
     (if list_all (\<lambda>i. i < length a) idx then Inr (map (\<lambda>i. a ! i) idx) else Inl IndexError)"

definition argpartition_call :: "'v pylib \<Rightarrow> real list \<Rightarrow> nat list \<Rightarrow> py_error + nat list" where
  "argpartition_call L a kth =
     (if list_all (\<lambda>k. k < length a) kth then Inr (np_argpartition L a kth) else Inl ValueError)"

text \<open>\<open>row[c]\<close> for a row of the data frame.\<close>

definition row_get :: "dataframe \<Rightarrow> row \<Rightarrow> ustring \<Rightarrow> py_error + pyval" where
  "row_get d r c =
     (if c \<in> set (columns d)
      then Inr (case map_of r c of Some v \<Rightarrow> v | None \<Rightarrow> NaN)
      else Inl KeyError)"

text \<open>
  The \<open>rating\<close> entry: \<open>float(row[self.rating_col])\<close> if the column is set and the cell is
  not missing, else \<open>None\<close>. The \<open>url\<close> entry: \<open>row[self.url_col]\<close> if the column is set,
  else \<open>None\<close>.
\<close>

definition rating_field :: "'v pylib \<Rightarrow> 'v recommender \<Rightarrow> row \<Rightarrow> py_error + pyval" where
  "rating_field L self r =
     (case rating_col self of
        None \<Rightarrow> Inr PyNone
      | Some c \<Rightarrow>
          if c = [] then Inr PyNone
          else (case row_get (df self) r c of
                  Inl e \<Rightarrow> Inl e
                | Inr v \<Rightarrow> if \<not> isna v then py_float L v else Inr PyNone))"

definition url_field :: "'v recommender \<Rightarrow> row \<Rightarrow> py_error + pyval" where
  "url_field self r =
     (case url_col self of
        None \<Rightarrow> Inr PyNone
      | Some c \<Rightarrow> if c = [] then Inr PyNone else row_get (df self) r c)"

text \<open>The body of the loop over \<open>top_idx\<close>: one result, or the exception.\<close>

definition make_result :: "'v pylib \<Rightarrow> 'v recommender \<Rightarrow> real list \<Rightarrow> nat \<Rightarrow> py_error + result" where
  "make_result L self sims idx =
     (if length (rows (df self)) \<le> idx then Inl IndexError
      else
        let r = rows (df self) ! idx in
        if length sims \<le> idx then Inl IndexError
        else
          (case rating_field L self r of
             Inl e \<Rightarrow> Inl e
           | Inr rt \<Rightarrow>
               (case url_field self r of
                  Inl e \<Rightarrow> Inl e
                | Inr u \<Rightarrow>
                    Inr \<lparr>title = (case map_of r (ustr ''__title__'') of
                                    Some v \<Rightarrow> v | None \<Rightarrow> Str []),
                         score = sims ! idx, rating = rt, url = u\<rparr>)))"

text \<open>The loop: the results in order, or the first exception.\<close>

fun collect :: "('a \<Rightarrow> py_error + 'b) \<Rightarrow> 'a list \<Rightarrow> py_error + 'b list" where
  "collect f [] = Inr []"
| "collect f (x # xs) =
     (case f x of
        Inl e \<Rightarrow> Inl e
      | Inr y \<Rightarrow> (case collect f xs of Inl e \<Rightarrow> Inl e | Inr ys \<Rightarrow> Inr (y # ys)))"

definition recommend :: "'v pylib \<Rightarrow> 'v recommender \<Rightarrow> pyval \<Rightarrow> int \<Rightarrow> py_error + result list" where
  "recommend L self query top_n =
     (let q = clean_text L query in
      if q = [] then Inr []
      else
        let q_vec = vectorizer self q;
            cosine_similarities = map (sk_dot L q_vec) (tfidf_matrix self)
        in
          if length cosine_similarities = 0 then Inr []
          else
            let top_n' = nat (max 1 top_n) in
            (case argpartition_call L (map uminus cosine_similarities)
                    [0..<min top_n' (length cosine_similarities)] of
               Inl e \<Rightarrow> Inl e
             | Inr part \<Rightarrow>
                 let top_idx = take top_n' part in
                 (case take_idx cosine_similarities top_idx of
                    Inl e \<Rightarrow> Inl e
                  | Inr sub \<Rightarrow>
                      (case take_idx top_idx (np_argsort L (map uminus sub)) of
                         Inl e \<Rightarrow> Inl e
                       | Inr top_idx' \<Rightarrow>
                           collect (make_result L self cosine_similarities) top_idx'))))"

text \<open>
  Lines 125 to 141 on their own, for the similarities \<open>sims\<close> and the clamped \<open>top_n\<close>:
  what \<open>recommend\<close> does once both early returns are passed.
\<close>

definition rank_and_assemble ::
    "'v pylib \<Rightarrow> 'v recommender \<Rightarrow> real list \<Rightarrow> nat \<Rightarrow> py_error + result list" where
  "rank_and_assemble L self sims k =
     (case argpartition_call L (map uminus sims) [0..<min k (length sims)] of
        Inl e \<Rightarrow> Inl e
      | Inr part \<Rightarrow>
          (case take_idx sims (take k part) of
             Inl e \<Rightarrow> Inl e
           | Inr sub \<Rightarrow>
               (case take_idx (take k part) (np_argsort L (map uminus sub)) of
                  Inl e \<Rightarrow> Inl e
                | Inr top_idx' \<Rightarrow> collect (make_result L self sims) top_idx')))"

subsection \<open>What numpy promises, and a well-formed catalog\<close>

text \<open>
  \<open>np.argsort\<close> returns a permutation of the indices that sorts the array in ascending
  order. \<open>np.argpartition\<close> returns a permutation of the indices under which every
  position of \<open>kth\<close> holds the element it has in sorted order, nothing greater before it
  and nothing smaller behind it.
\<close>

definition argsort_ok :: "real list \<Rightarrow> nat list \<Rightarrow> bool" where
  "argsort_ok a p =
     (length p = length a \<and> set p = {0..<length a} \<and> sorted (map (\<lambda>i. a ! i) p))"

definition partition_ok :: "real list \<Rightarrow> nat list \<Rightarrow> nat list \<Rightarrow> bool" where
  "partition_ok a kth p =
     (length p = length a \<and> set p = {0..<length a}
      \<and> (\<forall>k\<in>set kth. (\<forall>i<k. a ! (p ! i) \<le> a ! (p ! k))
                        \<and> (\<forall>i. k < i \<and> i < length a \<longrightarrow> a ! (p ! k) \<le> a ! (p ! i))))"

definition numpy_ok :: "'v pylib \<Rightarrow> bool" where
  "numpy_ok L =
     ((\<forall>a. argsort_ok a (np_argsort L a))
      \<and> (\<forall>a kth. list_all (\<lambda>k. k < length a) kth \<longrightarrow> partition_ok a kth (np_argpartition L a kth)))"

text \<open>
  The catalog as the data model has it: one row of the data frame per row of the document
  matrix, the detected url and rating columns are columns of the data frame, and a rating
  is missing, a number, or a text that \<open>float\<close> accepts.
\<close>

definition ratings_parse :: "'v pylib \<Rightarrow> 'v recommender \<Rightarrow> bool" where
  "ratings_parse L self =
     (case rating_col self of
        None \<Rightarrow> True
      | Some c \<Rightarrow>
          c = [] \<or>
          list_all (\<lambda>r. case map_of r c of
                           Some (Str s) \<Rightarrow> float_of_str L s \<noteq> None
                         | _ \<Rightarrow> True) (rows (df self)))"

definition catalog_ok :: "'v pylib \<Rightarrow> 'v recommender \<Rightarrow> bool" where
  "catalog_ok L self =
     (length (tfidf_matrix self) = length (rows (df self))
      \<and> (case url_col self of None \<Rightarrow> True | Some c \<Rightarrow> c = [] \<or> c \<in> set (columns (df self)))
      \<and> (case rating_col self of
            None \<Rightarrow> True
          | Some c \<Rightarrow> c = [] \<or> c \<in> set (columns (df self)))
      \<and> ratings_parse L self)"

text \<open>What scikit-learn promises: the document matrix has one vector per text.\<close>

definition sklearn_ok :: "'v pylib \<Rightarrow> bool" where
  "sklearn_ok L =
     (\<forall>docs vec mat. sk_fit_transform L docs = Inr (vec, mat) \<longrightarrow> length mat = length docs)"

section \<open>The query interface: the \<open>/recommend\<close> route of \<open>app.py\<close>\<close>

text \<open>
  The three responses of the route: the 400 error object, the 500 error object with the
  exception, and the success object with the query and the results.
\<close>

datatype response =
  Missing_query ustring | Internal_error py_error | Success ustring "result list"

definition is_error_object :: "response \<Rightarrow> bool" where
  "is_error_object resp =
     (case resp of Missing_query m \<Rightarrow> True | Internal_error e \<Rightarrow> True | Success q rs \<Rightarrow> False)"

text \<open>\<open>request.args.get\<close> is a lookup in the query parameters.\<close>

definition query_text :: "(ustring \<Rightarrow> ustring option) \<Rightarrow> ustring option" where
  "query_text args = py_or (py_or (args (ustr ''q'')) (args (ustr ''name''))) (args (ustr ''query''))"

definition missing_msg :: ustring where
  "missing_msg = ustr ''missing query parameter `q` (or `name`/`query`)''"

text \<open>
  Lines 51 to 54: \<open>int(request.args.get("top_n", 4))\<close>, and 4 when \<open>int\<close> raises.
\<close>

definition parse_top_n :: "'v pylib \<Rightarrow> (ustring \<Rightarrow> ustring option) \<Rightarrow> int" where
  "parse_top_n L args =
     (case args (ustr ''top_n'') of
        None \<Rightarrow> 4
      | Some s \<Rightarrow> (case int_of_str L s of Some n \<Rightarrow> n | None \<Rightarrow> 4))"

text \<open>
  \<open>jsonify({"query": q, "results": results})\<close> stands inside the same \<open>try\<close> as the call
  of \<open>recommend\<close>. The query and the titles are strings, the scores are floats and the
  ratings are floats or \<open>None\<close>, which the encoder accepts; the url is the cell of the
  data frame as it is.
\<close>

definition jsonify_ok :: "'v pylib \<Rightarrow> result list \<Rightarrow> bool" where
  "jsonify_ok L results = list_all (\<lambda>r. json_encodable L (url r)) results"

definition route_recommend ::
    "'v pylib \<Rightarrow> 'v recommender \<Rightarrow> (ustring \<Rightarrow> ustring option) \<Rightarrow> response" where
  "route_recommend L reco args =
     (case query_text args of
        None \<Rightarrow> Missing_query missing_msg
      | Some q \<Rightarrow>
          if q = [] then Missing_query missing_msg
          else
            let top_n = parse_top_n L args
            in (case recommend L reco (Str q) top_n of
                  Inr results \<Rightarrow>
                    if jsonify_ok L results then Success q results
                    else Internal_error TypeError
                | Inl e \<Rightarrow> Internal_error e))"

section \<open>The singleton: \<open>_SingletonMeta.__call__\<close> and \<open>create_recommender\<close>\<close>

text \<open>
  The state of the process: the entry of \<open>_instances\<close> for the class \<open>Recommender\<close>, and a
  counter of how often the body of \<open>__init__\<close> was entered (the counter is not in the
  code; it is there to state how often the constructor runs).
\<close>

record 'v process =
  instances :: "'v recommender option"
  init_runs :: nat

definition singleton_call ::
    "'v pylib \<Rightarrow> ustring \<Rightarrow> ustring list option \<Rightarrow> 'v process
      \<Rightarrow> (py_error + 'v recommender) \<times> 'v process" where
  "singleton_call L path tfields st =
     (case instances st of
        Some r \<Rightarrow> (Inr r, st)
      | None \<Rightarrow>
          (case Recommender_init L path tfields of
             Inl e \<Rightarrow> (Inl e, st\<lparr>init_runs := init_runs st + 1\<rparr>)
           | Inr r \<Rightarrow> (Inr r, st\<lparr>instances := Some r, init_runs := init_runs st + 1\<rparr>)))"

definition create_recommender ::
    "'v pylib \<Rightarrow> ustring \<Rightarrow> 'v process \<Rightarrow> (py_error + 'v recommender) \<times> 'v process" where
  "create_recommender L path st = singleton_call L path None st"

text \<open>
  A sequence of calls \<open>Recommender(csv_path, text_fields)\<close>, each given by its two
  arguments: what each returns, and the state left. A call of \<open>create_recommender\<close> is
  the call with \<open>text_fields = None\<close>.
\<close>

fun run_calls ::
    "'v pylib \<Rightarrow> (ustring \<times> ustring list option) list \<Rightarrow> 'v process
      \<Rightarrow> (py_error + 'v recommender) list \<times> 'v process" where
  "run_calls L [] st = ([], st)"
| "run_calls L ((p, tf) # cs) st =
     (case singleton_call L p tf st of
        (r, st') \<Rightarrow> (case run_calls L cs st' of (rs, st'') \<Rightarrow> (r # rs, st'')))"

definition fresh_process :: "'v process" where
  "fresh_process = \<lparr>instances = None, init_runs = 0\<rparr>"

section \<open>A concrete library and catalog\<close>

text \<open>
  One instance of the library parameters, on which the definitions can be run: vectors
  are the cleaned texts themselves, two texts score 1 when equal, 1/2 when they start
  with the same character and 0 otherwise; sorting is insertion sort on the keys;
  \<open>float\<close> rejects every text; the JSON encoder accepts every cell. There are two files:
  \<open>courses.csv\<close>, with two rows, the second without link, rating and headline, and
  \<open>rated.csv\<close>, with one row whose rating is the text \<open>high\<close>.
\<close>

definition demo_dot :: "ustring \<Rightarrow> ustring \<Rightarrow> real" where
  "demo_dot u v =
     (if u = v then 1 else if u \<noteq> [] \<and> v \<noteq> [] \<and> hd u = hd v then 1 / 2 else 0)"

definition demo_argsort :: "real list \<Rightarrow> nat list" where
  "demo_argsort a = sort_key (\<lambda>i. a ! i) [0..<length a]"

definition demo_int :: "ustring \<Rightarrow> int option" where
  "demo_int s =
     (if s \<noteq> [] \<and> list_all (\<lambda>c. 48 \<le> c \<and> c \<le> 57) s
      then Some (foldl (\<lambda>n c. 10 * n + int (c - 48)) 0 s)
      else None)"

definition demo_df :: dataframe where
  "demo_df =
     \<lparr>columns = [ustr ''Title'', ustr ''Link'', ustr ''Rating'', ustr ''Headline''],
      rows =
        [[(ustr ''Title'', Str (ustr ''Python'')), (ustr ''Link'', Str (ustr ''http://a'')),
          (ustr ''Rating'', Num (9 / 2)), (ustr ''Headline'', Str (ustr ''Basics''))],
         [(ustr ''Title'', Str (ustr ''Cooking'')), (ustr ''Link'', NaN),
          (ustr ''Rating'', NaN), (ustr ''Headline'', NaN)]]\<rparr>"

definition rated_df :: dataframe where
  "rated_df =
     \<lparr>columns = [ustr ''Title'', ustr ''Rating''],
      rows = [[(ustr ''Title'', Str (ustr ''Python'')), (ustr ''Rating'', Str (ustr ''high''))]]\<rparr>"

definition demo_lib :: "ustring pylib" where
  "demo_lib =
     \<lparr>unicode_lower = (\<lambda>s i. [s ! i]),
      str_of_num = (\<lambda>r. ustr ''0.0''),
      float_of_str = (\<lambda>s. None),
      int_of_str = demo_int,
      pd_read_csv = (\<lambda>p. if p = ustr ''courses.csv'' then Inr demo_df
                           else if p = ustr ''rated.csv'' then Inr rated_df
                           else Inl FileNotFoundError),
      sk_fit_transform = (\<lambda>docs. if docs = [] then Inl ValueError
                                   else Inr (\<lambda>q. q, docs)),
      sk_dot = demo_dot,
      np_argpartition = (\<lambda>a kth. demo_argsort a),
      np_argsort = demo_argsort,
      json_encodable = (\<lambda>v. True)\<rparr>"

text \<open>The recommender that the constructor builds from \<open>courses.csv\<close>.\<close>

definition demo_reco :: "ustring recommender" where
  "demo_reco =
     \<lparr>csv_path = ustr ''courses.csv'',
      df = \<lparr>columns = [ustr ''Title'', ustr ''Link'', ustr ''Rating'', ustr ''Headline'',
                       ustr ''__title__''],
            rows =
              [[(ustr ''Title'', Str (ustr ''Python'')),
                (ustr ''Link'', Str (ustr ''http://a'')),
                (ustr ''Rating'', Num (9 / 2)), (ustr ''Headline'', Str (ustr ''Basics'')),
                (ustr ''__title__'', Str (ustr ''Python''))],
               [(ustr ''Title'', Str (ustr ''Cooking'')), (ustr ''Link'', NaN),
                (ustr ''Rating'', NaN), (ustr ''Headline'', NaN),
                (ustr ''__title__'', Str (ustr ''Cooking''))]]\<rparr>,
      vectorizer = (\<lambda>q. q),
      tfidf_matrix = [ustr ''python basics'', ustr ''cooking nan''],
      text_fields = None,
      url_col = Some (ustr ''Link''),
      rating_col = Some (ustr ''Rating''),
      mapping = [(ustr ''title'', ustr ''Title''), (ustr ''url'', ustr ''Link''),
                 (ustr ''rating'', ustr ''Rating''), (ustr ''desc'', ustr ''Headline'')]\<rparr>"

text \<open>The recommender that the constructor builds from \<open>rated.csv\<close>.\<close>

definition rated_reco :: "ustring recommender" where
  "rated_reco =
     \<lparr>csv_path = ustr ''rated.csv'',
      df = \<lparr>columns = [ustr ''Title'', ustr ''Rating'', ustr ''__title__''],
            rows = [[(ustr ''Title'', Str (ustr ''Python'')),
                     (ustr ''Rating'', Str (ustr ''high'')),
                     (ustr ''__title__'', Str (ustr ''Python''))]]\<rparr>,
      vectorizer = (\<lambda>q. q),
      tfidf_matrix = [ustr ''python''],
      text_fields = None,
      url_col = None,
      rating_col = Some (ustr ''Rating''),
      mapping = [(ustr ''title'', ustr ''Title''), (ustr ''rating'', ustr ''Rating'')]\<rparr>"

section \<open>Scores in double arithmetic\<close>

text \<open>
  Modelled from the spec: the vectorizer and the kernel of scikit-learn, which are not
  under \<open>src/\<close>, computed as the library computes them, in IEEE 754 doubles. A finite
  double is the real number it stands for; every operation returns the double nearest to
  the exact result, ties going to the even significand (\<open>fl\<close>; the significand has 53
  bits, the exponent range is taken as unbounded, since no value of a score comes near
  its ends).
\<close>

definition round_even :: "real \<Rightarrow> int" where
  "round_even x =
     (let f = \<lfloor>x\<rfloor>; d = x - of_int f in
      if d < 1 / 2 then f
      else if 1 / 2 < d then f + 1
      else if even f then f else f + 1)"

definition fl :: "real \<Rightarrow> real" where
  "fl x =
     (if x = 0 then 0
      else
        let e = \<lfloor>log 2 \<bar>x\<bar>\<rfloor> in
        sgn x * (of_int (round_even (\<bar>x\<bar> * 2 powr (52 - of_int e))) * 2 powr (of_int e - 52)))"

definition fl_add :: "real \<Rightarrow> real \<Rightarrow> real" where "fl_add a b = fl (a + b)"

definition fl_mul :: "real \<Rightarrow> real \<Rightarrow> real" where "fl_mul a b = fl (a * b)"

definition fl_div :: "real \<Rightarrow> real \<Rightarrow> real" where "fl_div a b = fl (a / b)"

definition fl_sqrt :: "real \<Rightarrow> real" where "fl_sqrt a = fl (sqrt a)"

definition fl_ln :: "real \<Rightarrow> real" where "fl_ln a = fl (ln a)"

text \<open>
  Modelled from the spec (section 4.3, Build): a text is cut into its tokens (delimited
  by spaces) and the pairs of neighbouring tokens; the vocabulary is the set of terms of
  the corpus, at most 20000 of them, those in the most documents first; the weight of a
  term in a text is its count times \<open>idf = log((1 + N) / (1 + df)) + 1\<close>; the vector of
  weights over the vocabulary is divided by its L2 norm. Fitting on no term at all
  raises \<open>ValueError\<close>.
\<close>

definition tfidf_tokens :: "ustring \<Rightarrow> ustring list" where
  "tfidf_tokens s = filter (\<lambda>r. hd r \<noteq> 32) (runs (\<lambda>c. c = 32) s)"

definition tfidf_terms :: "ustring \<Rightarrow> ustring list" where
  "tfidf_terms s =
     (let ws = tfidf_tokens s in ws @ map (\<lambda>(a, b). a @ [32] @ b) (zip ws (tl ws)))"

definition doc_freq :: "ustring list \<Rightarrow> ustring \<Rightarrow> nat" where
  "doc_freq docs t = length (filter (\<lambda>d. t \<in> set (tfidf_terms d)) docs)"

definition tfidf_vocabulary :: "ustring list \<Rightarrow> ustring list" where
  "tfidf_vocabulary docs =
     take 20000 (sort_key (\<lambda>t. - int (doc_freq docs t)) (remdups (concat (map tfidf_terms docs))))"

definition tfidf_idf :: "ustring list \<Rightarrow> ustring \<Rightarrow> real" where
  "tfidf_idf docs t =
     fl_add (fl_ln (fl_div (real (1 + length docs)) (real (1 + doc_freq docs t)))) 1"

definition tfidf_weights :: "ustring list \<Rightarrow> ustring \<Rightarrow> real list" where
  "tfidf_weights docs s =
     map (\<lambda>t. fl_mul (real (count_list (tfidf_terms s) t)) (tfidf_idf docs t))
       (tfidf_vocabulary docs)"

definition l2_normalize :: "real list \<Rightarrow> real list" where
  "l2_normalize w =
     (let n = fl_sqrt (foldl (\<lambda>acc x. fl_add acc (fl_mul x x)) 0 w)
      in if n = 0 then w else map (\<lambda>x. fl_div x n) w)"

definition tfidf_transform :: "ustring list \<Rightarrow> ustring \<Rightarrow> real list" where
  "tfidf_transform docs s = l2_normalize (tfidf_weights docs s)"

definition tfidf_fit_transform ::
    "ustring list \<Rightarrow> py_error + ((ustring \<Rightarrow> real list) \<times> real list list)" where
  "tfidf_fit_transform docs =
     (if tfidf_vocabulary docs = [] then Inl ValueError
      else Inr (tfidf_transform docs, map (tfidf_transform docs) docs))"

text \<open>
  Modelled from the spec (section 4.3, Query): the similarity of two normalized vectors
  is their dot product, summed from left to right.
\<close>

definition fl_dot :: "real list \<Rightarrow> real list \<Rightarrow> real" where
  "fl_dot u v = foldl (\<lambda>acc (a, b). fl_add acc (fl_mul a b)) 0 (zip u v)"

text \<open>
  The library with this vectorizer and kernel, and the file \<open>food.csv\<close>: one column
  \<open>title\<close>, one row \<open>data food\<close>. \<open>food_reco\<close> is the recommender that the constructor
  builds from it.
\<close>

definition food_df :: dataframe where
  "food_df = \<lparr>columns = [ustr ''title''],
              rows = [[(ustr ''title'', Str (ustr ''data food''))]]\<rparr>"

definition ieee_lib :: "real list pylib" where
  "ieee_lib =
     \<lparr>unicode_lower = (\<lambda>s i. [s ! i]),
      str_of_num = (\<lambda>r. ustr ''0.0''),
      float_of_str = (\<lambda>s. None),
      int_of_str = demo_int,
      pd_read_csv = (\<lambda>p. if p = ustr ''food.csv'' then Inr food_df
                           else Inl FileNotFoundError),
      sk_fit_transform = tfidf_fit_transform,
      sk_dot = fl_dot,
      np_argpartition = (\<lambda>a kth. demo_argsort a),
      np_argsort = demo_argsort,
      json_encodable = (\<lambda>v. True)\<rparr>"

definition food_reco :: "real list recommender" where
  "food_reco =
     \<lparr>csv_path = ustr ''food.csv'',
      df = \<lparr>columns = [ustr ''title'', ustr ''__title__''],
            rows = [[(ustr ''title'', Str (ustr ''data food'')),
                     (ustr ''__title__'', Str (ustr ''data food''))]]\<rparr>,
      vectorizer = tfidf_transform [ustr ''data food''],
      tfidf_matrix = [tfidf_transform [ustr ''data food''] (ustr ''data food'')],
      text_fields = None,
      url_col = None,
      rating_col = None,
      mapping = [(ustr ''title'', ustr ''title'')]\<rparr>"

text \<open>
  The doubles of that run: \<open>sqrt(3.0)\<close>, \<open>1.0 / sqrt(3.0)\<close>, its square, twice the square,
  and three times the square, which is \<open>1.0000000000000002\<close>.
\<close>

definition d_sqrt3 :: real where "d_sqrt3 = 7800463371553962 / 2 ^ 52"

definition d_x :: real where "d_x = 5200308914369309 / 2 ^ 53"

definition d_p :: real where "d_p = 6004799503160663 / 2 ^ 54"

definition d_a :: real where "d_a = 6004799503160663 / 2 ^ 53"

definition d_d :: real where "d_d = 4503599627370497 / 2 ^ 52"

text \<open>The defining equations that running the normalizer on a literal unfolds.\<close>

lemmas clean_text_eval =
  clean_text_def isna_def py_str_def str_lower_def lower_at_def ustr_def
  in_az09sp_def is_space_def strip_def upt_rec Let_def

lemmas recommend_eval =
  recommend_def argpartition_call_def take_idx_def make_result_def rating_field_def
  url_field_def row_get_def py_float_def demo_reco_def rated_reco_def demo_lib_def
  demo_dot_def demo_argsort_def

lemmas init_eval =
  Recommender_init_def detect_columns_def choose_title_col_def get_column_def
  set_column_def desc_series_def build_combined_def entry_def astype_str_def fillna_def
  truthy_def demo_lib_def demo_df_def demo_reco_def rated_df_def rated_reco_def

section \<open>Properties of the text normalizer\<close>

subsection \<open>Maximal runs\<close>

lemma concat_runs: "concat (runs P s) = s"
  by (induction s) (auto split: list.splits)

lemma runs_nonempty: "r \<in> set (runs P s) \<Longrightarrow> r \<noteq> []"
  by (induction s arbitrary: r) (auto split: list.splits if_splits)

lemma runs_uniform: "r \<in> set (runs P s) \<Longrightarrow> x \<in> set r \<Longrightarrow> P x = P (hd r)"
proof (induction s arbitrary: r x)
  case Nil
  then show ?case by simp
next
  case (Cons a s)
  show ?case
  proof (cases "runs P s")
    case Nil
    with Cons.prems show ?thesis by simp
  next
    case (Cons q qs)
    have q: "\<And>y. y \<in> set q \<Longrightarrow> P y = P (hd q)"
      using Cons.IH[of q] Cons by simp
    have qs: "\<And>r' y. r' \<in> set qs \<Longrightarrow> y \<in> set r' \<Longrightarrow> P y = P (hd r')"
      using Cons.IH Cons by simp
    show ?thesis
      using Cons.prems Cons q qs by (auto split: if_splits)
  qed
qed

lemma runs_maximal:
  "Suc i < length (runs P s) \<Longrightarrow> P (hd (runs P s ! i)) \<noteq> P (hd (runs P s ! Suc i))"
proof (induction s arbitrary: i)
  case Nil
  then show ?case by simp
next
  case (Cons x xs)
  show ?case
  proof (cases "runs P xs")
    case Nil
    with Cons.prems show ?thesis by simp
  next
    case (Cons r rs)
    note rr = this
    show ?thesis
    proof (cases "P x = P (hd r)")
      case True
      then have eq: "runs P (x # xs) = (x # r) # rs" using rr by simp
      show ?thesis
      proof (cases i)
        case 0
        have "Suc 0 < length (runs P xs)" using Cons.prems eq rr 0 by simp
        from Cons.IH[OF this] show ?thesis using eq rr 0 True by simp
      next
        case (Suc j)
        have "Suc (Suc j) < length (runs P xs)" using Cons.prems eq rr Suc by simp
        from Cons.IH[OF this] show ?thesis using eq rr Suc by simp
      qed
    next
      case False
      then have eq: "runs P (x # xs) = [x] # r # rs" using rr by simp
      show ?thesis
      proof (cases i)
        case 0
        then show ?thesis using eq False by simp
      next
        case (Suc j)
        have "Suc j < length (runs P xs)" using Cons.prems eq rr Suc by simp
        from Cons.IH[OF this] show ?thesis using eq rr Suc by simp
      qed
    qed
  qed
qed

lemma runs_Cons_hd: "\<exists>r rs. runs P (x # xs) = (x # r) # rs"
  by (cases "runs P xs") auto

lemma replace_runs_Nil: "replace_runs P repl [] = []"
  by (simp add: replace_runs_def)

lemma replace_runs_keep:
  "\<not> P c \<Longrightarrow> replace_runs P repl (c # cs) = c # replace_runs P repl cs"
  by (cases "runs P cs") (auto simp: replace_runs_def)

lemma replace_runs_skip:
  "P c \<Longrightarrow> replace_runs P repl (c # cs) = repl @ replace_runs P repl (dropWhile P cs)"
proof (induction cs arbitrary: c)
  case Nil
  then show ?case by (simp add: replace_runs_def)
next
  case (Cons d ds)
  obtain r rs where eq: "runs P (d # ds) = (d # r) # rs"
    using runs_Cons_hd[of P d ds] by blast
  show ?case
  proof (cases "P d")
    case True
    have "replace_runs P repl (c # d # ds) = replace_runs P repl (d # ds)"
      using Cons.prems True eq unfolding replace_runs_def
      by (simp del: runs.simps add: runs.simps(2)[of P c "d # ds"])
    also have "\<dots> = repl @ replace_runs P repl (dropWhile P ds)"
      using Cons.IH[OF True] .
    finally show ?thesis using True by simp
  next
    case False
    have "replace_runs P repl (c # d # ds) = repl @ replace_runs P repl (d # ds)"
      using Cons.prems False eq unfolding replace_runs_def
      by (simp del: runs.simps add: runs.simps(2)[of P c "d # ds"])
    then show ?thesis using False by simp
  qed
qed

text \<open>The scan of \<open>re.sub\<close> replaces exactly the maximal runs of the class.\<close>

lemma re_sub_plus_runs: "re_sub_plus P repl s = replace_runs P repl s"
  by (induction P repl s rule: re_sub_plus.induct)
     (simp_all add: replace_runs_Nil replace_runs_keep replace_runs_skip)

subsection \<open>The shape of a normalized string\<close>

lemma squeezed_Cons_keep: "\<not> P c \<Longrightarrow> squeezed P xs \<Longrightarrow> squeezed P (c # xs)"
  by (cases xs) simp_all

lemma squeezed_tl: "squeezed P (x # xs) \<Longrightarrow> squeezed P xs"
  by (cases xs) simp_all

lemma squeezed_dropWhile: "squeezed P xs \<Longrightarrow> squeezed P (dropWhile Q xs)"
  by (induction xs) (auto dest: squeezed_tl)

lemma squeezed_prefix: "squeezed P (xs @ ys) \<Longrightarrow> squeezed P xs"
proof (induction P xs rule: squeezed.induct)
  case (3 P x y zs)
  then show ?case by simp
qed simp_all

lemma rev_dropWhile_rev_prefix:
  "rev (dropWhile P (rev u)) @ rev (takeWhile P (rev u)) = u"
proof -
  have "rev (takeWhile P (rev u) @ dropWhile P (rev u)) = u" by simp
  then show ?thesis by (simp only: rev_append)
qed

lemma squeezed_strip: "squeezed P s \<Longrightarrow> squeezed P (strip s)"
proof -
  assume "squeezed P s"
  then have "squeezed P (dropWhile is_space s)" by (rule squeezed_dropWhile)
  then have "squeezed P (rev (dropWhile is_space (rev (dropWhile is_space s)))
       @ rev (takeWhile is_space (rev (dropWhile is_space s))))"
    by (simp only: rev_dropWhile_rev_prefix)
  then show ?thesis unfolding strip_def by (rule squeezed_prefix)
qed

lemma set_strip: "x \<in> set (strip s) \<Longrightarrow> x \<in> set s"
proof -
  assume "x \<in> set (strip s)"
  then have "x \<in> set (dropWhile is_space (rev (dropWhile is_space s)))"
    by (simp add: strip_def)
  then have "x \<in> set (rev (dropWhile is_space s))" by (rule set_dropWhileD)
  then have "x \<in> set (dropWhile is_space s)" by simp
  then show ?thesis by (rule set_dropWhileD)
qed

lemma strip_ends:
  "strip s = [] \<or> (\<not> is_space (hd (strip s)) \<and> \<not> is_space (last (strip s)))"
proof (cases "strip s = []")
  case True
  then show ?thesis by simp
next
  case False
  let ?u = "dropWhile is_space s"
  let ?d = "dropWhile is_space (rev ?u)"
  have t: "strip s = rev ?d" by (simp add: strip_def)
  have dne: "?d \<noteq> []" using False t by simp
  then have "\<not> is_space (hd ?d)" by (rule hd_dropWhile)
  moreover have "last (strip s) = hd ?d" using dne t by (simp add: last_rev)
  ultimately have l: "\<not> is_space (last (strip s))" by simp
  have une: "?u \<noteq> []"
  proof
    assume "?u = []"
    then have "?d = []" by (simp only: rev.simps dropWhile.simps)
    with dne show False by simp
  qed
  then have hu: "\<not> is_space (hd ?u)" by (rule hd_dropWhile)
  have "strip s @ rev (takeWhile is_space (rev ?u)) = ?u"
    unfolding strip_def by (rule rev_dropWhile_rev_prefix)
  then have "hd ?u = hd (strip s)" using False by (metis hd_append2)
  with hu l show ?thesis by simp
qed

lemma strip_id:
  assumes "s = [] \<or> (\<not> is_space (hd s) \<and> \<not> is_space (last s))"
  shows "strip s = s"
proof (cases "s = []")
  case True
  then show ?thesis by (simp add: strip_def)
next
  case False
  with assms have h: "\<not> is_space (hd s)" and l: "\<not> is_space (last s)" by simp_all
  from False h have d1: "dropWhile is_space s = s" by (cases s) simp_all
  from False l have "\<not> is_space (hd (rev s))" by (simp add: hd_rev)
  with False have "dropWhile is_space (rev s) = rev s" by (cases "rev s") simp_all
  with d1 show ?thesis by (simp add: strip_def)
qed

lemma re_sub_plus_squeezed: "P r \<Longrightarrow> squeezed P (re_sub_plus P [r] s)"
proof (induction P "[r]" s rule: re_sub_plus.induct)
  case (1 cls)
  then show ?case by simp
next
  case (2 cls c cs)
  show ?case
  proof (cases "cls c")
    case True
    show ?thesis
    proof (cases "dropWhile cls cs")
      case Nil
      with True show ?thesis by (simp del: dropWhile_eq_Nil_conv)
    next
      case (Cons d ds)
      then have nd: "\<not> cls d" using hd_dropWhile[of cls cs] by simp
      have "squeezed cls (re_sub_plus cls [r] (dropWhile cls cs))"
        using 2 True by simp
      with True Cons nd show ?thesis by simp
    qed
  next
    case False
    with 2 show ?thesis by (simp add: squeezed_Cons_keep)
  qed
qed

lemma re_sub_plus_set:
  "set (re_sub_plus P repl s) \<subseteq> set repl \<union> {c \<in> set s. \<not> P c}"
  by (induction P repl s rule: re_sub_plus.induct) (auto dest: set_dropWhileD)

lemma re_sub_plus_id_none: "\<forall>c\<in>set s. \<not> P c \<Longrightarrow> re_sub_plus P repl s = s"
  by (induction s) simp_all

lemma re_sub_plus_id_squeezed:
  "squeezed P s \<Longrightarrow> \<forall>c\<in>set s. P c \<longrightarrow> c = r \<Longrightarrow> re_sub_plus P [r] s = s"
proof (induction P s rule: squeezed.induct)
  case (1 P)
  then show ?case by simp
next
  case (2 P x)
  then show ?case by simp
next
  case (3 P x y zs)
  then show ?case by auto
qed

lemma str_lower_id:
  assumes "\<forall>c\<in>set s. in_az09sp c"
  shows "str_lower U s = s"
proof -
  have "map (lower_at U s) [0..<length s] = map (\<lambda>i. [s ! i]) [0..<length s]"
  proof (rule map_cong[OF refl])
    fix i assume "i \<in> set [0..<length s]"
    then have "in_az09sp (s ! i)" using assms by simp
    then show "lower_at U s i = [s ! i]"
      by (auto simp: lower_at_def in_az09sp_def Let_def)
  qed
  then have "str_lower U s = concat (map (\<lambda>i. [s ! i]) [0..<length s])"
    by (simp only: str_lower_def)
  also have "\<dots> = map (\<lambda>i. s ! i) [0..<length s]"
    by (rule concat_map_singleton)
  also have "\<dots> = s" by (rule map_nth)
  finally show ?thesis .
qed

lemma is_space_az09sp: "in_az09sp c \<Longrightarrow> is_space c \<Longrightarrow> c = 32"
  by (auto simp: in_az09sp_def is_space_def)

lemma clean_text_normal_form: "normal_form (clean_text L v)"
proof (cases "isna v")
  case True
  then show ?thesis by (simp add: clean_text_def normal_form_def)
next
  case False
  define s1 where "s1 = str_lower (unicode_lower L) (py_str L v)"
  define s2 where "s2 = re_sub_plus (\<lambda>c. \<not> in_az09sp c) [32] s1"
  define s3 where "s3 = re_sub_plus is_space [32] s2"
  have ct: "clean_text L v = strip s3"
    using False by (simp add: clean_text_def s1_def s2_def s3_def Let_def)
  have a2: "\<forall>c\<in>set s2. in_az09sp c"
    using re_sub_plus_set[of "\<lambda>c. \<not> in_az09sp c" "[32]" s1]
    unfolding s2_def by (auto simp: in_az09sp_def)
  have a3: "\<forall>c\<in>set s3. in_az09sp c"
    using re_sub_plus_set[of is_space "[32]" s2] a2
    unfolding s3_def by (auto simp: in_az09sp_def)
  have "is_space 32" by (simp add: is_space_def)
  then have q3: "squeezed is_space s3"
    unfolding s3_def by (rule re_sub_plus_squeezed)
  have "\<forall>c\<in>set (strip s3). in_az09sp c" using a3 set_strip by blast
  moreover have "squeezed is_space (strip s3)" using q3 by (rule squeezed_strip)
  ultimately show ?thesis
    using strip_ends[of s3] unfolding ct normal_form_def by (simp add: list_all_iff)
qed

lemma clean_text_fixes_normal_form:
  assumes "normal_form t"
  shows "clean_text L (Str t) = t"
proof -
  from assms have a: "\<forall>c\<in>set t. in_az09sp c"
    and q: "squeezed is_space t"
    and e: "t = [] \<or> (\<not> is_space (hd t) \<and> \<not> is_space (last t))"
    by (simp_all add: normal_form_def list_all_iff)
  have l: "str_lower (unicode_lower L) t = t" using a by (rule str_lower_id)
  have r1: "re_sub_plus (\<lambda>c. \<not> in_az09sp c) [32] t = t"
    using a by (intro re_sub_plus_id_none) simp
  have "\<forall>c\<in>set t. is_space c \<longrightarrow> c = 32" using a is_space_az09sp by blast
  with q have r2: "re_sub_plus is_space [32] t = t" by (rule re_sub_plus_id_squeezed)
  have r3: "strip t = t" using e by (rule strip_id)
  show ?thesis
    by (simp add: clean_text_def isna_def py_str_def Let_def l r1 r2 r3)
qed

section \<open>Claims about the text normalizer\<close>

text \<open>
  C1. \<open>_clean_text\<close> returns the empty string for a null or NaN argument; otherwise it
  lower-cases the string, replaces every maximal run of characters outside \<open>[a-z0-9 ]\<close>
  by one space, collapses every run of whitespace to one space and trims the whitespace
  at both ends. It is a function of its argument alone (and of the Unicode tables of the
  runtime).
\<close>

theorem clean_text_meets_spec: "clean_text L s = normalize_spec L s"
  by (simp add: clean_text_def normalize_spec_def re_sub_plus_runs)

theorem clean_text_meets_spec_witness:
  "normalize_spec demo_lib (Str (ustr ''  Hello, World!! 2x  '')) = ustr ''hello world 2x''
   \<and> normalize_spec demo_lib NaN = [] \<and> normalize_spec demo_lib PyNone = []"
proof -
  have "clean_text demo_lib (Str (ustr ''  Hello, World!! 2x  '')) = ustr ''hello world 2x''"
    by (simp add: clean_text_eval)
  moreover have "clean_text demo_lib NaN = []" by (simp add: clean_text_def isna_def)
  moreover have "clean_text demo_lib PyNone = []" by (simp add: clean_text_def isna_def)
  ultimately show ?thesis
    using clean_text_meets_spec[of demo_lib] by simp
qed

text \<open>
  C2. Normalizing an already normalized string changes nothing:
  \<open>_clean_text(_clean_text(s)) == _clean_text(s)\<close>, for every argument \<open>s\<close>.
\<close>

theorem clean_text_idempotent: "clean_text L (Str (clean_text L s)) = clean_text L s"
  by (rule clean_text_fixes_normal_form) (rule clean_text_normal_form)

theorem clean_text_idempotent_witness:
  "clean_text demo_lib (Str (ustr ''a b'')) = ustr ''a b''
   \<and> clean_text demo_lib (Str (ustr '' A,,b '')) = ustr ''a b''"
proof -
  have e: "clean_text demo_lib (Str (ustr '' A,,b '')) = ustr ''a b''"
    by (simp add: clean_text_eval)
  show ?thesis
    using clean_text_idempotent[of demo_lib "Str (ustr '' A,,b '')"] e by simp
qed

section \<open>Properties of \<open>recommend\<close>\<close>

lemma collect_Inr:
  "collect f xs = Inr ys \<Longrightarrow> list_all2 (\<lambda>x y. f x = Inr y) xs ys"
  by (induction xs arbitrary: ys) (auto split: sum.splits)


lemma make_result_score: "make_result L self sims idx = Inr r \<Longrightarrow> score r = sims ! idx"
  by (auto simp: make_result_def Let_def split: if_splits sum.splits)

lemma collect_scores:
  assumes "collect (make_result L self sims) idx = Inr rs"
  shows "map score rs = map (\<lambda>i. sims ! i) idx"
proof -
  have "list_all2 (\<lambda>i r. make_result L self sims i = Inr r) idx rs"
    using assms by (rule collect_Inr)
  then have "list_all2 (\<lambda>i r. sims ! i = score r) idx rs"
    by (rule list_all2_mono) (simp add: make_result_score)
  then show ?thesis
    by (induction idx rs rule: list_all2_induct) simp_all
qed

lemma take_idx_Inr: "take_idx a idx = Inr b \<Longrightarrow> b = map (\<lambda>i. a ! i) idx \<and> (\<forall>i\<in>set idx. i < length a)"
  by (auto simp: take_idx_def list_all_iff split: if_splits)

lemma sorted_neg_desc:
  "sorted (map (\<lambda>i. - f i) (q::nat list)) \<Longrightarrow> sorted_wrt (\<lambda>a b. (b::real) \<le> a) (map f q)"
  by (simp add: sorted_wrt_map)

lemma recommend_cases:
  "recommend L self query top_n =
     (if clean_text L query = [] \<or> tfidf_matrix self = [] then Inr []
      else rank_and_assemble L self
             (map (sk_dot L (vectorizer self (clean_text L query))) (tfidf_matrix self))
             (nat (max 1 top_n)))"
  unfolding recommend_def rank_and_assemble_def Let_def by simp

lemma recommend_scores_sorted:
  assumes np: "numpy_ok L" and r: "recommend L self query top_n = Inr rs"
  shows "sorted_wrt (\<lambda>a b. b \<le> a) (map score rs)"
proof (cases "clean_text L query = [] \<or> tfidf_matrix self = []")
  case True
  with r have "rs = []" by (auto simp: recommend_cases)
  then show ?thesis by simp
next
  case False
  define sims where "sims = map (sk_dot L (vectorizer self (clean_text L query))) (tfidf_matrix self)"
  define k where "k = nat (max 1 top_n)"
  from r False obtain part sub top_idx' where
      sub: "take_idx sims (take k part) = Inr sub"
    and ti: "take_idx (take k part) (np_argsort L (map uminus sub)) = Inr top_idx'"
    and co: "collect (make_result L self sims) top_idx' = Inr rs"
    by (auto simp: recommend_cases rank_and_assemble_def sims_def k_def split: sum.splits)
  define q where "q = np_argsort L (map uminus sub)"
  from take_idx_Inr[OF sub] have sub_eq: "sub = map (\<lambda>i. sims ! i) (take k part)" by simp
  from take_idx_Inr[OF ti] have ti_eq: "top_idx' = map (\<lambda>j. take k part ! j) q"
    and q_lt: "\<forall>j\<in>set q. j < length (take k part)" by (simp_all add: q_def)
  have "argsort_ok (map uminus sub) q" using np by (simp add: numpy_ok_def q_def)
  then have so: "sorted (map (\<lambda>j. map uminus sub ! j) q)" by (simp add: argsort_ok_def)
  have "map (\<lambda>j. map uminus sub ! j) q = map (\<lambda>j. - (sub ! j)) q"
    using q_lt sub_eq by (intro map_cong) auto
  with so have "sorted (map (\<lambda>j. - (sub ! j)) q)" by simp
  then have d: "sorted_wrt (\<lambda>a b. b \<le> a) (map (\<lambda>j. sub ! j) q)" by (rule sorted_neg_desc)
  have "map score rs = map (\<lambda>i. sims ! i) top_idx'" using co by (rule collect_scores)
  also have "\<dots> = map (\<lambda>j. sims ! (take k part ! j)) q" by (simp add: ti_eq comp_def)
  also have "\<dots> = map (\<lambda>j. sub ! j) q"
    using q_lt sub_eq by (intro map_cong) auto
  finally show ?thesis using d by simp
qed









section \<open>The load keeps the rows and the document matrix aligned\<close>

text \<open>
  If the vectorizer returns one vector per text, the recommender that the constructor
  returns has as many rows in its data frame as in its document matrix.
\<close>

lemma get_column_length: "get_column d c = Inr vs \<Longrightarrow> length vs = length (rows d)"
  by (auto simp: get_column_def split: if_splits)

lemma rows_set_column: "length vs = length (rows d) \<Longrightarrow> length (rows (set_column d c vs)) = length (rows d)"
  by (simp add: set_column_def)

lemma build_combined_length:
  assumes "case desc_ser of None \<Rightarrow> True | Some ds \<Rightarrow> length ds = length title_ser"
  shows "length (build_combined L title_ser desc_ser) = length title_ser"
  using assms by (cases desc_ser) (simp_all add: build_combined_def Let_def)

lemma desc_series_length:
  "desc_series L d c = Inr (Some ds) \<Longrightarrow> length ds = length (rows d)"
  by (auto simp: desc_series_def get_column_length split: if_splits option.splits sum.splits)

lemma init_aligned:
  assumes init: "Recommender_init L path tfields = Inr r"
    and sk: "\<And>docs vec mat. sk_fit_transform L docs = Inr (vec, mat) \<Longrightarrow> length mat = length docs"
  shows "length (tfidf_matrix r) = length (rows (df r))"
proof -
  from init obtain d tc tcol title_ser desc_ser vec mat where
    tcol: "get_column d tc = Inr tcol"
    and ts: "get_column (set_column d (ustr ''__title__'') (map (astype_str L) tcol))
               (ustr ''__title__'') = Inr title_ser"
    and ds: "desc_series L (set_column d (ustr ''__title__'') (map (astype_str L) tcol))
               (map_of (detect_columns L d) (ustr ''desc'')) = Inr desc_ser"
    and fit: "sk_fit_transform L (build_combined L title_ser desc_ser) = Inr (vec, mat)"
    and r: "tfidf_matrix r = mat"
       "df r = set_column d (ustr ''__title__'') (map (astype_str L) tcol)"
    unfolding Recommender_init_def Let_def
    by (auto split: sum.splits prod.splits)
  let ?d1 = "set_column d (ustr ''__title__'') (map (astype_str L) tcol)"
  have l1: "length (rows ?d1) = length (rows d)"
    using get_column_length[OF tcol] by (simp add: rows_set_column)
  have l2: "length title_ser = length (rows ?d1)" using ts by (rule get_column_length)
  have "case desc_ser of None \<Rightarrow> True | Some x \<Rightarrow> length x = length title_ser"
    using ds l2 by (cases desc_ser) (simp_all add: desc_series_length)
  then have "length (build_combined L title_ser desc_ser) = length title_ser"
    by (rule build_combined_length)
  with sk[OF fit] l2 r show ?thesis by simp
qed

text \<open>
  The url and rating columns that the constructor detects are columns of its data frame.
  So, with one vector per text from scikit-learn, what the constructor returns is a
  well-formed catalog as soon as its ratings are missing, numbers or texts that
  \<open>float\<close> accepts.
\<close>

lemma first_candidate_range:
  "first_candidate cols cands = Some c \<Longrightarrow> \<exists>k. cols k = Some c"
  by (induction cands) (auto split: option.splits)

lemma cols_value_is_column:
  "map_of (rev (map (\<lambda>c. (f c, c)) xs)) k = Some c \<Longrightarrow> c \<in> set xs"
  by (auto dest!: map_of_SomeD)

lemma map_of_entry:
  "map_of (entry k v @ rest) k' =
     (if ustr k = k' then (case v of Some c \<Rightarrow> Some c | None \<Rightarrow> map_of rest k')
      else map_of rest k')"
  by (cases v) (simp_all add: entry_def)

lemma key_neq:
  "ustr ''title'' \<noteq> ustr ''url''" "ustr ''title'' \<noteq> ustr ''rating''"
  "ustr ''url'' \<noteq> ustr ''rating''" "ustr ''rating'' \<noteq> ustr ''url''"
  "ustr ''desc'' \<noteq> ustr ''url''" "ustr ''desc'' \<noteq> ustr ''rating''"
  by (simp_all add: ustr_def)

lemma map_of_entry_last:
  "map_of (entry k v) k' = (if ustr k = k' then v else None)"
  by (cases v) (simp_all add: entry_def)

lemma case_option_id: "(case v of None \<Rightarrow> None | Some c \<Rightarrow> Some c) = v"
  by (cases v) simp_all

lemma detected_url:
  "map_of (detect_columns L d) (ustr ''url'') =
     first_candidate (map_of (rev (map (\<lambda>c. (str_lower (unicode_lower L) c, c)) (columns d))))
       [ustr ''url'', ustr ''course_url'', ustr ''link'', ustr ''course link'']"
  unfolding detect_columns_def Let_def
  by (simp only: map_of_entry map_of_entry_last key_neq if_False if_True refl
        case_option_id option.case_eq_if split: option.splits) (simp add: option.case_eq_if)


lemma detected_rating:
  "map_of (detect_columns L d) (ustr ''rating'') =
     first_candidate (map_of (rev (map (\<lambda>c. (str_lower (unicode_lower L) c, c)) (columns d))))
       [ustr ''rating'', ustr ''avg_rating'', ustr ''avg rating'', ustr ''reviews'']"
  unfolding detect_columns_def Let_def
  by (simp only: map_of_entry map_of_entry_last key_neq if_False if_True refl
        case_option_id option.case_eq_if split: option.splits) (simp add: option.case_eq_if)

lemma detected_is_column:
  assumes "k = ustr ''url'' \<or> k = ustr ''rating''"
    and "map_of (detect_columns L d) k = Some c"
  shows "c \<in> set (columns d)"
proof -
  define cols where
    "cols = map_of (rev (map (\<lambda>c. (str_lower (unicode_lower L) c, c)) (columns d)))"
  from assms have "\<exists>cands. first_candidate cols cands = Some c"
    unfolding cols_def detected_url detected_rating
    by (elim disjE) (simp only: detected_url detected_rating, blast)+
  then obtain k' where "cols k' = Some c" using first_candidate_range by blast
  then show ?thesis unfolding cols_def by (rule cols_value_is_column)
qed

lemma columns_set_column: "set (columns d) \<subseteq> set (columns (set_column d c vs))"
  by (auto simp: set_column_def)

lemma init_fields:
  assumes "Recommender_init L path tfields = Inr r"
  shows "\<exists>d vs. df r = set_column d (ustr ''__title__'') vs
           \<and> url_col r = map_of (detect_columns L d) (ustr ''url'')
           \<and> rating_col r = map_of (detect_columns L d) (ustr ''rating'')"
proof -
  from assms obtain d tcol where
    "df r = set_column d (ustr ''__title__'') (map (astype_str L) tcol)"
    "url_col r = map_of (detect_columns L d) (ustr ''url'')"
    "rating_col r = map_of (detect_columns L d) (ustr ''rating'')"
    unfolding Recommender_init_def Let_def
    by (auto split: sum.splits prod.splits)
  then show ?thesis by blast
qed

lemma init_catalog_ok:
  assumes init: "Recommender_init L path tfields = Inr r"
    and sk: "sklearn_ok L" and rp: "ratings_parse L r"
  shows "catalog_ok L r"
proof -
  have al: "length (tfidf_matrix r) = length (rows (df r))"
    using init sk unfolding sklearn_ok_def by (intro init_aligned) blast+
  from init_fields[OF init] obtain d vs where
    d: "df r = set_column d (ustr ''__title__'') vs"
    and u: "url_col r = map_of (detect_columns L d) (ustr ''url'')"
    and rt: "rating_col r = map_of (detect_columns L d) (ustr ''rating'')" by blast
  have cu: "\<And>c. url_col r = Some c \<Longrightarrow> c \<in> set (columns (df r))"
    using detected_is_column[of "ustr ''url''" L d] columns_set_column[of d] u d by auto
  have cr: "\<And>c. rating_col r = Some c \<Longrightarrow> c \<in> set (columns (df r))"
    using detected_is_column[of "ustr ''rating''" L d] columns_set_column[of d] rt d by auto
  show ?thesis
    unfolding catalog_ok_def using al cu cr rp by (auto split: option.splits)
qed

section \<open>The concrete library meets the promises\<close>

lemma demo_argsort_ok: "argsort_ok a (demo_argsort a)"
  by (simp add: argsort_ok_def demo_argsort_def sorted_sort_key)

lemma demo_partition_ok:
  assumes "list_all (\<lambda>k. k < length a) kth"
  shows "partition_ok a kth (demo_argsort a)"
proof -
  let ?p = "demo_argsort a"
  have len: "length ?p = length a" and st: "set ?p = {0..<length a}"
    and so: "sorted (map (\<lambda>i. a ! i) ?p)"
    using demo_argsort_ok[of a] by (simp_all add: argsort_ok_def)
  have mono: "\<And>i j. i \<le> j \<Longrightarrow> j < length a \<Longrightarrow> a ! (?p ! i) \<le> a ! (?p ! j)"
  proof -
    fix i j assume ij: "i \<le> j" and j: "j < length a"
    then have "map (\<lambda>i. a ! i) ?p ! i \<le> map (\<lambda>i. a ! i) ?p ! j"
      using so len by (simp add: sorted_iff_nth_mono)
    then show "a ! (?p ! i) \<le> a ! (?p ! j)" using ij j len by simp
  qed
  have "\<forall>k\<in>set kth. (\<forall>i<k. a ! (?p ! i) \<le> a ! (?p ! k))
                        \<and> (\<forall>i. k < i \<and> i < length a \<longrightarrow> a ! (?p ! k) \<le> a ! (?p ! i))"
  proof
    fix k assume "k \<in> set kth"
    then have k: "k < length a" using assms by (simp add: list_all_iff)
    show "(\<forall>i<k. a ! (?p ! i) \<le> a ! (?p ! k))
            \<and> (\<forall>i. k < i \<and> i < length a \<longrightarrow> a ! (?p ! k) \<le> a ! (?p ! i))"
      using mono k by (simp add: less_imp_le)
  qed
  with len st show ?thesis unfolding partition_ok_def by blast
qed

lemma demo_numpy_ok: "numpy_ok demo_lib"
  by (simp add: numpy_ok_def demo_lib_def demo_argsort_ok demo_partition_ok)


text \<open>The constructor on \<open>courses.csv\<close> builds \<open>demo_reco\<close>; no other file exists.\<close>

lemma demo_init: "Recommender_init demo_lib (ustr ''courses.csv'') None = Inr demo_reco"
  by (simp add: init_eval clean_text_eval)

lemma demo_init_missing:
  "Recommender_init demo_lib (ustr ''missing.csv'') None = Inl FileNotFoundError"
  by (simp add: Recommender_init_def demo_lib_def ustr_def)

section \<open>Claims about \<open>recommend\<close>\<close>

text \<open>
  C3. For every query whose normalized form is empty (\<open>None\<close>, NaN, or a text of
  punctuation only such as \<open>"!!!???"\<close>) and every \<open>top_n\<close>, \<open>recommend\<close> returns the
  empty list and raises nothing.
\<close>

theorem recommend_empty_query:
  "clean_text L query = [] \<Longrightarrow> recommend L self query top_n = Inr []"
  by (simp add: recommend_def)

theorem recommend_empty_query_witness:
  "clean_text demo_lib (Str (ustr ''!!!???'')) = []
   \<and> recommend demo_lib demo_reco (Str (ustr ''!!!???'')) 7 = Inr []
   \<and> recommend demo_lib demo_reco NaN 7 = Inr []
   \<and> recommend demo_lib demo_reco PyNone (- 3) = Inr []"
proof -
  have p: "clean_text demo_lib (Str (ustr ''!!!???'')) = []"
    by (simp add: clean_text_eval)
  have n: "clean_text demo_lib NaN = []" and m: "clean_text demo_lib PyNone = []"
    by (simp_all add: clean_text_def isna_def)
  show ?thesis
    using p recommend_empty_query[OF p, of demo_reco 7]
      recommend_empty_query[OF n, of demo_reco 7]
      recommend_empty_query[OF m, of demo_reco "- 3"]
    by simp
qed




text \<open>
  C5. For every query and \<open>top_n\<close>, the sequence that \<open>recommend\<close> returns is in
  descending order of score: \<open>result[i].score >= result[i+1].score\<close> for all neighbours
  (and so for all pairs).
\<close>

theorem recommend_sorted_descending:
  assumes "numpy_ok L" and "recommend L self query top_n = Inr rs"
  shows "sorted_wrt (\<lambda>a b. b \<le> a) (map score rs)
         \<and> (\<forall>i. Suc i < length rs \<longrightarrow> score (rs ! Suc i) \<le> score (rs ! i))"
proof -
  have s: "sorted_wrt (\<lambda>a b. b \<le> a) (map score rs)"
    using assms by (rule recommend_scores_sorted)
  have "\<forall>i. Suc i < length rs \<longrightarrow> score (rs ! Suc i) \<le> score (rs ! i)"
  proof (intro allI impI)
    fix i assume i: "Suc i < length rs"
    then have "map score rs ! Suc i \<le> map score rs ! i"
      using s by (simp add: sorted_wrt_iff_nth_less del: nth_map)
    with i show "score (rs ! Suc i) \<le> score (rs ! i)" by simp
  qed
  with s show ?thesis by simp
qed

theorem recommend_sorted_descending_witness:
  "numpy_ok demo_lib
   \<and> map score (projr (recommend demo_lib demo_reco (Str (ustr ''Cooking NaN'')) 5)) = [1, 0]
   \<and> sorted_wrt (\<lambda>a b. b \<le> a) [1, 0 :: real]"
proof -
  have e: "recommend demo_lib demo_reco (Str (ustr ''Cooking NaN'')) 5 =
      Inr [\<lparr>title = Str (ustr ''Cooking''), score = 1, rating = PyNone, url = NaN\<rparr>,
           \<lparr>title = Str (ustr ''Python''), score = 0, rating = Num (9 / 2),
            url = Str (ustr ''http://a'')\<rparr>]"
    by (simp add: recommend_eval clean_text_eval)
  show ?thesis
    using demo_numpy_ok recommend_sorted_descending[OF demo_numpy_ok e]
    by (simp add: e)
qed

text \<open>
  C8. In every result of \<open>recommend\<close> the rating is a float or null and the url is a
  string or null; a missing (NaN) rating or url of the catalog row becomes null. The
  rating does (the code tests \<open>pd.isna\<close> before \<open>float\<close>), the url does not: it is
  copied from the row as it is. The second row of \<open>courses.csv\<close> has no link, and its
  result carries the url NaN.
\<close>

theorem recommend_missing_url_stays_nan:
  "recommend demo_lib demo_reco (Str (ustr ''Cooking NaN'')) 1 =
     Inr [\<lparr>title = Str (ustr ''Cooking''), score = 1, rating = PyNone, url = NaN\<rparr>]"
  by (simp add: recommend_eval clean_text_eval)

text \<open>The rating of a result is null or a float, never NaN.\<close>

lemma rating_field_null_or_float:
  assumes "rating_field L self r = Inr v"
  shows "v = PyNone \<or> (\<exists>x. v = Num x)"
proof (cases "rating_col self")
  case None
  with assms show ?thesis by (simp add: rating_field_def)
next
  case (Some c)
  show ?thesis
  proof (cases "c = [] \<or> c \<notin> set (columns (df self))")
    case True
    with assms Some show ?thesis
      by (auto simp: rating_field_def row_get_def split: if_splits)
  next
    case False
    define w where "w = (case map_of r c of Some u \<Rightarrow> u | None \<Rightarrow> NaN)"
    from assms Some False
    have "(if \<not> isna w then py_float L w else Inr PyNone) = Inr v"
      by (auto simp: rating_field_def row_get_def w_def split: if_splits)
    then show ?thesis
      by (cases w) (auto simp: isna_def py_float_def split: option.splits)
  qed
qed

section \<open>Claims about loading, the route and the singleton\<close>

text \<open>Where title and description are present, the combined text is as the claim says.\<close>

lemma build_combined_present:
  "build_combined L [Str t] None = [clean_text L (Str t)]"
  "build_combined L [Str t] (Some [Str d]) = [clean_text L (Str (t @ [32] @ d))]"
  by (simp_all add: build_combined_def astype_str_def fillna_def isna_def py_str_def)

text \<open>
  C7. During the load, the cleaned text of a row is \<open>normalize(title)\<close> without a
  description column and \<open>normalize(title + " " + description)\<close> with one, a missing
  (NaN) description counting as the empty string. The code calls \<open>astype(str)\<close> before
  \<open>fillna("")\<close>, so a missing description has become the text \<open>nan\<close> when \<open>fillna\<close>
  looks at it: for the title \<open>Cooking\<close> the cleaned text is \<open>cooking nan\<close>, where the
  claim gives \<open>cooking\<close>.
\<close>

theorem missing_description_becomes_nan_text:
  "build_combined L [Str (ustr ''Cooking'')] (Some [NaN]) = [ustr ''cooking nan'']
   \<and> clean_text L (Str (ustr ''Cooking'' @ ustr '' '' @ [])) = ustr ''cooking''"
  by (simp add: build_combined_def astype_str_def fillna_def clean_text_eval)

text \<open>The constructor on \<open>rated.csv\<close> builds \<open>rated_reco\<close>.\<close>

lemma rated_init: "Recommender_init demo_lib (ustr ''rated.csv'') None = Inr rated_reco"
  by (simp add: init_eval clean_text_eval)

text \<open>
  C9 as stated: an error object is returned only when the text argument is absent, and a
  supplied but empty text yields an empty success result. It fails for the empty text:
  \<open>if not q\<close> rejects it like an absent one.
\<close>

theorem route_empty_text_is_error:
  "[ustr ''q'' \<mapsto> []] (ustr ''q'') = Some []
   \<and> is_error_object (route_recommend demo_lib demo_reco [ustr ''q'' \<mapsto> []])"
  by (simp add: route_recommend_def query_text_def py_or_def truthy_def is_error_object_def
      ustr_def)

text \<open>
  C9 amended. The 400 error object is returned exactly when none of \<open>q\<close>, \<open>name\<close>,
  \<open>query\<close> carries a non-empty text (each is absent or empty). Otherwise the text is the
  first non-empty one of the three and \<open>top_n\<close> is parsed (4 when absent or not an
  integer): the 500 error object is returned exactly when \<open>recommend\<close> raises for that
  text and \<open>top_n\<close> (it then carries that exception) or the JSON encoder rejects a url of
  its results; the success object is returned exactly when neither happens, with the
  results of \<open>recommend\<close>. A supplied non-empty text that normalizes to empty yields the
  success object with no results.
\<close>

theorem route_recommend_responses:
  "(route_recommend L reco args = Missing_query missing_msg
      \<longleftrightarrow> \<not> (truthy (args (ustr ''q'')) \<or> truthy (args (ustr ''name''))
              \<or> truthy (args (ustr ''query''))))
   \<and> (\<forall>e. route_recommend L reco args = Internal_error e
          \<longleftrightarrow> (\<exists>q. query_text args = Some q \<and> q \<noteq> []
                \<and> (recommend L reco (Str q) (parse_top_n L args) = Inl e
                    \<or> (\<exists>rs. recommend L reco (Str q) (parse_top_n L args) = Inr rs
                          \<and> \<not> jsonify_ok L rs \<and> e = TypeError))))
   \<and> (\<forall>q rs. route_recommend L reco args = Success q rs
          \<longleftrightarrow> (query_text args = Some q \<and> q \<noteq> []
               \<and> recommend L reco (Str q) (parse_top_n L args) = Inr rs \<and> jsonify_ok L rs))
   \<and> (\<forall>q. query_text args = Some q \<and> q \<noteq> [] \<and> clean_text L (Str q) = []
          \<longrightarrow> route_recommend L reco args = Success q [])"
proof -
  have t: "truthy (query_text args) \<longleftrightarrow>
      truthy (args (ustr ''q'')) \<or> truthy (args (ustr ''name'')) \<or> truthy (args (ustr ''query''))"
    by (simp add: query_text_def py_or_def)
  show ?thesis
  proof (cases "query_text args")
    case None
    then have r: "route_recommend L reco args = Missing_query missing_msg"
      by (simp add: route_recommend_def)
    from None have "\<not> truthy (query_text args)" by (simp add: truthy_def)
    with t r None show ?thesis by simp
  next
    case (Some q0)
    show ?thesis
    proof (cases "q0 = []")
      case True
      with Some have r: "route_recommend L reco args = Missing_query missing_msg"
        by (simp add: route_recommend_def)
      from Some True have "\<not> truthy (query_text args)" by (simp add: truthy_def)
      with t r Some True show ?thesis by simp
    next
      case False
      with Some have tr: "truthy (query_text args)" by (simp add: truthy_def)
      show ?thesis
      proof (cases "recommend L reco (Str q0) (parse_top_n L args)")
        case (Inl e0)
        with Some False have r: "route_recommend L reco args = Internal_error e0"
          by (simp add: route_recommend_def)
        have ne: "clean_text L (Str q0) \<noteq> []"
          using Inl by (auto simp: recommend_def)
        show ?thesis using r t tr Some False Inl ne by auto
      next
        case (Inr rs0)
        show ?thesis
        proof (cases "jsonify_ok L rs0")
          case True
          with Some False Inr have r: "route_recommend L reco args = Success q0 rs0"
            by (simp add: route_recommend_def)
          have "clean_text L (Str q0) = [] \<Longrightarrow> rs0 = []"
            using Inr by (simp add: recommend_def)
          then show ?thesis using r t tr Some False Inr True by auto
        next
          case nj: False
          with Some False Inr have r: "route_recommend L reco args = Internal_error TypeError"
            by (simp add: route_recommend_def)
          have "clean_text L (Str q0) \<noteq> []"
          proof
            assume "clean_text L (Str q0) = []"
            then have "rs0 = []" using Inr by (simp add: recommend_def)
            with nj show False by (simp add: jsonify_ok_def)
          qed
          then show ?thesis using r t tr Some False Inr nj by auto
        qed
      qed
    qed
  qed
qed

theorem route_recommend_responses_witness:
  "route_recommend demo_lib demo_reco Map.empty = Missing_query missing_msg
   \<and> query_text [ustr ''q'' \<mapsto> ustr ''!!!''] = Some (ustr ''!!!'')
   \<and> clean_text demo_lib (Str (ustr ''!!!'')) = []
   \<and> route_recommend demo_lib demo_reco [ustr ''q'' \<mapsto> ustr ''!!!''] = Success (ustr ''!!!'') []
   \<and> query_text [ustr ''q'' \<mapsto> ustr ''Python''] = Some (ustr ''Python'')
   \<and> recommend demo_lib rated_reco (Str (ustr ''Python''))
        (parse_top_n demo_lib [ustr ''q'' \<mapsto> ustr ''Python'']) = Inl ValueError
   \<and> route_recommend demo_lib rated_reco [ustr ''q'' \<mapsto> ustr ''Python'']
        = Internal_error ValueError"
proof -
  have q: "query_text [ustr ''q'' \<mapsto> ustr ''!!!''] = Some (ustr ''!!!'')"
    by (simp add: query_text_def py_or_def truthy_def ustr_def)
  have c: "clean_text demo_lib (Str (ustr ''!!!'')) = []"
    by (simp add: clean_text_eval)
  have n: "ustr ''!!!'' \<noteq> []" by (simp add: ustr_def)
  have e: "\<not> (truthy (Map.empty (ustr ''q'')) \<or> truthy (Map.empty (ustr ''name''))
              \<or> truthy (Map.empty (ustr ''query'')))"
    by (simp add: truthy_def)
  have q2: "query_text [ustr ''q'' \<mapsto> ustr ''Python''] = Some (ustr ''Python'')"
    by (simp add: query_text_def py_or_def truthy_def ustr_def)
  have n2: "ustr ''Python'' \<noteq> []" by (simp add: ustr_def)
  have p2: "parse_top_n demo_lib [ustr ''q'' \<mapsto> ustr ''Python''] = 4"
    by (simp add: parse_top_n_def ustr_def)
  have r2: "recommend demo_lib rated_reco (Str (ustr ''Python'')) 4 = Inl ValueError"
    by (simp add: recommend_eval clean_text_eval)
  have m: "route_recommend demo_lib demo_reco Map.empty = Missing_query missing_msg"
    using route_recommend_responses[of demo_lib demo_reco Map.empty] e by blast
  have s: "route_recommend demo_lib demo_reco [ustr ''q'' \<mapsto> ustr ''!!!''] = Success (ustr ''!!!'') []"
    using route_recommend_responses[of demo_lib demo_reco "[ustr ''q'' \<mapsto> ustr ''!!!'']"] q c n
    by blast
  have i: "route_recommend demo_lib rated_reco [ustr ''q'' \<mapsto> ustr ''Python'']
        = Internal_error ValueError"
    using route_recommend_responses[of demo_lib rated_reco "[ustr ''q'' \<mapsto> ustr ''Python'']"]
      q2 n2 r2 unfolding p2 by blast
  show ?thesis using m q c s q2 r2 i by (simp add: p2)
qed

text \<open>
  C10 as stated: the constructor body runs at most once per process. It fails when a
  construction raises: nothing is stored then, and the next call constructs again. With
  \<open>missing.csv\<close> absent, the calls of \<open>create_recommender\<close> for \<open>missing.csv\<close> and then
  for \<open>courses.csv\<close> enter the constructor twice.
\<close>

theorem constructor_runs_twice_after_failure:
  "init_runs (snd (run_calls demo_lib
       [(ustr ''missing.csv'', None), (ustr ''courses.csv'', None)] fresh_process)) = 2"
  by (simp add: singleton_call_def fresh_process_def demo_init demo_init_missing)

text \<open>
  C10 amended, for every call \<open>Recommender(csv_path, text_fields)\<close>, of which
  \<open>create_recommender(csv_path)\<close> is the one with \<open>text_fields = None\<close>. While no
  instance is stored, a call runs the constructor body once and returns what it returns
  or raises; the instance is stored if and only if the constructor returned one, so after
  a construction that raised the next call constructs again. Once a call has returned an
  instance, that instance is the stored one, and every later sequence of calls, whatever
  their arguments, returns it each time and leaves the process as it is: the constructor
  body does not run again, so it completes at most once per process.
\<close>

theorem singleton_keeps_first_instance:
  "create_recommender L p st = singleton_call L p None st
   \<and> (instances st = None \<longrightarrow>
        fst (singleton_call L p tf st) = Recommender_init L p tf
        \<and> init_runs (snd (singleton_call L p tf st)) = init_runs st + 1
        \<and> instances (snd (singleton_call L p tf st))
            = (case Recommender_init L p tf of Inl e \<Rightarrow> None | Inr r \<Rightarrow> Some r))
   \<and> (\<forall>r st'. singleton_call L p tf st = (Inr r, st') \<longrightarrow>
        instances st' = Some r
        \<and> (\<forall>cs. run_calls L cs st' = (replicate (length cs) (Inr r), st')))"
proof (intro conjI impI allI)
  show "create_recommender L p st = singleton_call L p None st"
    by (simp add: create_recommender_def)
next
  assume n: "instances st = None"
  show "fst (singleton_call L p tf st) = Recommender_init L p tf"
    using n by (simp add: singleton_call_def split: sum.splits)
  show "init_runs (snd (singleton_call L p tf st)) = init_runs st + 1"
    using n by (simp add: singleton_call_def split: sum.splits)
  show "instances (snd (singleton_call L p tf st))
          = (case Recommender_init L p tf of Inl e \<Rightarrow> None | Inr r \<Rightarrow> Some r)"
    using n by (simp add: singleton_call_def split: sum.splits)
next
  fix r st' assume c: "singleton_call L p tf st = (Inr r, st')"
  show i: "instances st' = Some r"
    using c by (auto simp: singleton_call_def split: option.splits sum.splits)
  fix cs
  have "\<And>s. instances s = Some r \<Longrightarrow> run_calls L cs s = (replicate (length cs) (Inr r), s)"
    by (induction cs) (auto simp: singleton_call_def)
  with i show "run_calls L cs st' = (replicate (length cs) (Inr r), st')" by simp
qed

theorem singleton_keeps_first_instance_witness:
  "instances (fresh_process :: ustring process) = None
   \<and> singleton_call demo_lib (ustr ''missing.csv'') None fresh_process
       = (Inl FileNotFoundError, \<lparr>instances = None, init_runs = 1\<rparr>)
   \<and> singleton_call demo_lib (ustr ''courses.csv'') None \<lparr>instances = None, init_runs = 1\<rparr>
       = (Inr demo_reco, \<lparr>instances = Some demo_reco, init_runs = 2\<rparr>)
   \<and> run_calls demo_lib [(ustr ''rated.csv'', Some [ustr ''Title'']), (ustr ''missing.csv'', None)]
        \<lparr>instances = Some demo_reco, init_runs = 2\<rparr>
     = ([Inr demo_reco, Inr demo_reco], \<lparr>instances = Some demo_reco, init_runs = 2\<rparr>)"
proof -
  have f: "instances (fresh_process :: ustring process) = None"
    by (simp add: fresh_process_def)
  have a: "singleton_call demo_lib (ustr ''missing.csv'') None fresh_process
       = (Inl FileNotFoundError, \<lparr>instances = None, init_runs = 1\<rparr>)"
    by (simp add: singleton_call_def fresh_process_def demo_init_missing)
  have c: "singleton_call demo_lib (ustr ''courses.csv'') None
         \<lparr>instances = None, init_runs = 1\<rparr>
       = (Inr demo_reco, \<lparr>instances = Some demo_reco, init_runs = 2\<rparr>)"
    by (simp add: singleton_call_def demo_init)
  from singleton_keeps_first_instance[of demo_lib "ustr ''courses.csv''"
         "\<lparr>instances = None, init_runs = 1\<rparr>" None] c
  have "\<forall>cs. run_calls demo_lib cs \<lparr>instances = Some demo_reco, init_runs = 2\<rparr>
          = (replicate (length cs) (Inr demo_reco), \<lparr>instances = Some demo_reco, init_runs = 2\<rparr>)"
    by blast
  then have "run_calls demo_lib
        [(ustr ''rated.csv'', Some [ustr ''Title'']), (ustr ''missing.csv'', None)]
        \<lparr>instances = Some demo_reco, init_runs = 2\<rparr>
     = (replicate (length [(ustr ''rated.csv'', Some [ustr ''Title'']), (ustr ''missing.csv'', None)])
          (Inr demo_reco), \<lparr>instances = Some demo_reco, init_runs = 2\<rparr>)"
    by (rule spec)
  with f a c show ?thesis by simp
qed

section \<open>Rounding to the nearest double\<close>

lemma round_even_near:
  assumes "\<bar>x - of_int m\<bar> < 1 / 2"
  shows "round_even x = m"
proof -
  have "\<lfloor>x\<rfloor> = m \<or> \<lfloor>x\<rfloor> = m - 1" using assms by linarith
  then show ?thesis
  proof
    assume f: "\<lfloor>x\<rfloor> = m"
    then have "x - of_int m < 1 / 2" using assms by linarith
    with f show ?thesis by (simp add: round_even_def Let_def)
  next
    assume f: "\<lfloor>x\<rfloor> = m - 1"
    have "- (1 / 2) < x - of_int m" using assms by linarith
    then have "1 / 2 < x - of_int (m - 1)" by simp
    with f show ?thesis by (simp add: round_even_def Let_def)
  qed
qed

lemma fl_scaled:
  fixes x :: real and k :: nat
  assumes lo: "2 ^ 52 \<le> x * 2 ^ k" and hi: "x * 2 ^ k < 2 ^ 53"
  shows "fl x = of_int (round_even (x * 2 ^ k)) / 2 ^ k"
proof -
  have xp: "0 < x"
  proof (rule ccontr)
    assume "\<not> 0 < x"
    then have "x * 2 ^ k \<le> 0" by (simp add: mult_le_0_iff)
    moreover have "(0::real) < 2 ^ 52" by simp
    ultimately show False using lo by linarith
  qed
  have l: "log 2 (x * 2 ^ k) = log 2 x + real k"
    using xp by (simp add: log_mult log_nat_power)
  have c52: "log 2 ((2::real) ^ 52) = 52" and c53: "log 2 ((2::real) ^ 53) = 53"
    using log_pow_cancel[of "2::real" 52] log_pow_cancel[of "2::real" 53] by simp_all
  have "log 2 (2 ^ 52) \<le> log 2 (x * 2 ^ k)"
    using lo xp by (subst log_le_cancel_iff) simp_all
  then have a: "52 \<le> log 2 x + real k" using l c52 by simp
  have "log 2 (x * 2 ^ k) < log 2 (2 ^ 53)"
    using hi xp by (subst log_less_cancel_iff) simp_all
  then have b: "log 2 x + real k < 53" using l c53 by simp
  have e: "\<lfloor>log 2 x\<rfloor> = 52 - int k"
    by (rule floor_unique) (use a b in simp_all)
  have p1: "2 powr (52 - of_int (52 - int k)) = (2::real) ^ k"
    by (simp add: powr_realpow)
  have p2: "2 powr (of_int (52 - int k) - 52) = 1 / (2::real) ^ k"
    by (simp add: powr_minus powr_realpow inverse_eq_divide)
  show ?thesis
    using xp
    by (simp add: fl_def Let_def e powr_realpow powr_minus inverse_eq_divide)
qed

lemma fl_exact:
  fixes m :: int and k :: nat
  assumes "2 ^ 52 \<le> m" and "m < 2 ^ 53"
  shows "fl (of_int m / 2 ^ k) = of_int m / 2 ^ k"
proof -
  have "round_even (of_int m) = m" by (rule round_even_near) simp
  moreover have "2 ^ 52 \<le> (of_int m :: real)" using assms(1) by (metis of_int_le_iff of_int_numeral of_int_power)
  moreover have "(of_int m :: real) < 2 ^ 53" using assms(2) by (metis of_int_less_iff of_int_numeral of_int_power)
  ultimately show ?thesis
    using fl_scaled[of "of_int m / 2 ^ k" k] by simp
qed

lemma fl_0: "fl 0 = 0"
  by (simp add: fl_def)

lemma fl_1: "fl 1 = 1"
  using fl_exact[of "2 ^ 52" 52] by simp

lemma fl_2: "fl 2 = 2"
  using fl_exact[of "2 ^ 52" 51] by simp

lemma fl_3: "fl 3 = 3"
  using fl_exact[of "3 * 2 ^ 51" 51] by simp

lemma fl_nearest:
  fixes x c :: real
  assumes "c = 2 ^ k" and "4503599627370496 \<le> x * c" and "x * c < 9007199254740992"
    and "\<bar>x * c - of_int m\<bar> < 1 / 2"
  shows "fl x = of_int m / c"
proof -
  have "round_even (x * 2 ^ k) = m"
    using assms(1,4) by (intro round_even_near) simp
  moreover have "2 ^ 52 \<le> x * 2 ^ k" and "x * 2 ^ k < 2 ^ 53"
    using assms(1,2,3) by simp_all
  ultimately show ?thesis
    using fl_scaled[of x k] assms(1) by simp
qed

lemma near_from_bounds:
  fixes y c m :: real
  assumes "m - 1 / 2 < y * c" and "y * c < m + 1 / 2"
  shows "\<bar>y * c - m\<bar> < 1 / 2"
  using assms by linarith

lemma fl_sqrt3: "fl (sqrt 3) = d_sqrt3"
proof -
  have lo: "15600926743107923 / 9007199254740992 < sqrt 3"
    by (rule real_less_rsqrt) (simp add: power2_eq_square)
  have hi: "sqrt 3 < 15600926743107925 / 9007199254740992"
    by (rule real_less_lsqrt) (simp_all add: power2_eq_square)
  have "fl (sqrt 3) = of_int 7800463371553962 / 4503599627370496"
  proof (rule fl_nearest[where k = 52])
    show "(4503599627370496::real) = 2 ^ 52" by simp
    show "4503599627370496 \<le> sqrt 3 * 4503599627370496" using lo by simp
    show "sqrt 3 * 4503599627370496 < 9007199254740992" using hi by simp
    have "7800463371553962 - 1 / 2 < sqrt 3 * 4503599627370496"
      using lo by (simp add: field_simps)
    moreover have "sqrt 3 * 4503599627370496 < 7800463371553962 + 1 / 2"
      using hi by (simp add: field_simps)
    ultimately have "\<bar>sqrt 3 * 4503599627370496 - 7800463371553962\<bar> < 1 / 2"
      by (rule near_from_bounds)
    then show "\<bar>sqrt 3 * 4503599627370496 - of_int 7800463371553962\<bar> < 1 / 2"
      by simp
  qed
  then show ?thesis by (simp add: d_sqrt3_def)
qed

lemma fl_recip: "fl (1 / d_sqrt3) = d_x"
proof -
  have "fl (1 / d_sqrt3) = of_int 5200308914369309 / 9007199254740992"
    by (rule fl_nearest[where k = 53]) (simp_all add: d_sqrt3_def abs_less_iff)
  then show ?thesis by (simp add: d_x_def)
qed

lemma fl_square: "fl (d_x * d_x) = d_p"
proof -
  have "fl (d_x * d_x) = of_int 6004799503160663 / 18014398509481984"
    by (rule fl_nearest[where k = 54]) (simp_all add: d_x_def abs_less_iff)
  then show ?thesis by (simp add: d_p_def)
qed

lemma fl_p: "fl d_p = d_p"
proof -
  have "fl d_p = of_int 6004799503160663 / 18014398509481984"
    by (rule fl_nearest[where k = 54]) (simp_all add: d_p_def)
  then show ?thesis by (simp add: d_p_def)
qed

lemma fl_pp: "fl (d_p + d_p) = d_a"
proof -
  have "fl (d_p + d_p) = of_int 6004799503160663 / 9007199254740992"
    by (rule fl_nearest[where k = 53]) (simp_all add: d_p_def)
  then show ?thesis by (simp add: d_a_def)
qed

lemma fl_ap: "fl (d_a + d_p) = d_d"
proof -
  have "fl (d_a + d_p) = of_int 4503599627370497 / 4503599627370496"
    by (rule fl_nearest[where k = 52]) (simp_all add: d_a_def d_p_def abs_less_iff)
  then show ?thesis by (simp add: d_d_def)
qed

lemma d_d_exceeds_one: "1 < d_d"
  by (simp add: d_d_def)

lemma food_terms:
  "tfidf_terms (ustr ''data food'') = [ustr ''data'', ustr ''food'', ustr ''data food'']"
  by (simp add: tfidf_terms_def tfidf_tokens_def ustr_def Let_def)

lemma food_terms_distinct:
  "ustr ''data'' \<noteq> ustr ''food''" "ustr ''data'' \<noteq> ustr ''data food''"
  "ustr ''food'' \<noteq> ustr ''data food''" "ustr ''food'' \<noteq> ustr ''data''"
  "ustr ''data food'' \<noteq> ustr ''data''" "ustr ''data food'' \<noteq> ustr ''food''"
  by (simp_all add: ustr_def)

lemma food_doc_freq:
  "t \<in> set [ustr ''data'', ustr ''food'', ustr ''data food''] \<Longrightarrow>
     doc_freq [ustr ''data food''] t = 1"
  by (auto simp: doc_freq_def food_terms)

lemma food_vocabulary:
  "tfidf_vocabulary [ustr ''data food''] = [ustr ''data'', ustr ''food'', ustr ''data food'']"
  by (simp add: tfidf_vocabulary_def food_terms food_terms_distinct food_doc_freq)

lemma fl_ln_1: "fl_ln 1 = 0"
  by (simp add: fl_ln_def fl_0)

lemma food_idf:
  "t \<in> set [ustr ''data'', ustr ''food'', ustr ''data food''] \<Longrightarrow>
     tfidf_idf [ustr ''data food''] t = 1"
  by (simp add: tfidf_idf_def food_doc_freq fl_div_def fl_add_def fl_1 fl_ln_1)

lemma food_weights:
  "tfidf_weights [ustr ''data food''] (ustr ''data food'') = [1, 1, 1]"
  by (simp add: tfidf_weights_def food_vocabulary food_idf food_terms food_terms_distinct
      fl_mul_def fl_1)

lemma l2_normalize_ones: "l2_normalize [1, 1, 1] = [d_x, d_x, d_x]"
proof -
  have "foldl (\<lambda>acc x. fl_add acc (fl_mul x x)) 0 [1, 1, 1] = 3"
    by (simp add: fl_add_def fl_mul_def fl_1 fl_2 fl_3)
  moreover have "fl_sqrt 3 = d_sqrt3" by (simp add: fl_sqrt_def fl_sqrt3)
  moreover have "d_sqrt3 \<noteq> 0" by (simp add: d_sqrt3_def)
  moreover have "fl_div 1 d_sqrt3 = d_x" by (simp add: fl_div_def fl_recip)
  ultimately show ?thesis by (simp add: l2_normalize_def Let_def)
qed

lemma food_transform:
  "tfidf_transform [ustr ''data food''] (ustr ''data food'') = [d_x, d_x, d_x]"
  by (simp add: tfidf_transform_def food_weights l2_normalize_ones)

lemma food_dot: "fl_dot [d_x, d_x, d_x] [d_x, d_x, d_x] = d_d"
proof -
  have a: "fl_mul d_x d_x = d_p" unfolding fl_mul_def by (rule fl_square)
  have b: "fl_add 0 d_p = d_p" by (simp add: fl_add_def fl_p)
  have c: "fl_add d_p d_p = d_a" unfolding fl_add_def by (rule fl_pp)
  have d: "fl_add d_a d_p = d_d" unfolding fl_add_def by (rule fl_ap)
  show ?thesis by (simp add: fl_dot_def a b c d)
qed

section \<open>The catalog \<open>food.csv\<close>\<close>

lemma food_clean: "clean_text ieee_lib (Str (ustr ''data food'')) = ustr ''data food''"
  by (simp add: clean_text_eval ieee_lib_def)

lemma food_nonempty: "ustr ''data food'' \<noteq> []"
  by (simp add: ustr_def)

lemma food_keys:
  "ustr ''title'' \<noteq> ustr ''__title__''" "ustr ''__title__'' \<noteq> ustr ''title''"
  "ustr ''title'' \<noteq> ustr ''url''" "ustr ''title'' \<noteq> ustr ''rating''"
  "ustr ''title'' \<noteq> ustr ''desc''" "ustr ''url'' \<noteq> ustr ''title''"
  "ustr ''rating'' \<noteq> ustr ''title''" "ustr ''desc'' \<noteq> ustr ''title''"
  by (simp_all add: ustr_def)

lemma food_sims:
  "map (sk_dot ieee_lib (vectorizer food_reco (ustr ''data food''))) (tfidf_matrix food_reco)
     = [d_d]"
  by (simp add: food_reco_def ieee_lib_def food_transform food_dot)

lemma food_detect: "detect_columns ieee_lib food_df = [(ustr ''title'', ustr ''title'')]"
  by (simp add: detect_columns_def entry_def ieee_lib_def food_df_def str_lower_def
      lower_at_def ustr_def upt_rec Let_def)

lemma food_init: "Recommender_init ieee_lib (ustr ''food.csv'') None = Inr food_reco"
proof -
  have r: "pd_read_csv ieee_lib (ustr ''food.csv'') = Inr food_df"
    by (simp add: ieee_lib_def)
  have t: "choose_title_col [(ustr ''title'', ustr ''title'')] food_df = Inr (ustr ''title'')"
    by (simp add: choose_title_col_def ustr_def)
  have c: "get_column food_df (ustr ''title'') = Inr [Str (ustr ''data food'')]"
    by (simp add: get_column_def food_df_def)
  have a: "astype_str ieee_lib (Str (ustr ''data food'')) = Str (ustr ''data food'')"
    by (simp add: astype_str_def py_str_def)
  have s: "set_column food_df (ustr ''__title__'') [Str (ustr ''data food'')] = df food_reco"
    by (simp add: set_column_def food_df_def food_reco_def food_keys)
  have c2: "get_column (df food_reco) (ustr ''__title__'') = Inr [Str (ustr ''data food'')]"
    by (simp add: get_column_def food_reco_def food_keys)
  have d: "desc_series ieee_lib (df food_reco) None = Inr None"
    by (simp add: desc_series_def truthy_def)
  have b: "build_combined ieee_lib [Str (ustr ''data food'')] None = [ustr ''data food'']"
    by (simp add: build_combined_def fillna_def isna_def food_clean)
  have f: "sk_fit_transform ieee_lib [ustr ''data food'']
       = Inr (tfidf_transform [ustr ''data food''],
              [tfidf_transform [ustr ''data food''] (ustr ''data food'')])"
    by (simp add: ieee_lib_def tfidf_fit_transform_def food_vocabulary)
  show ?thesis
    unfolding Recommender_init_def
    by (simp add: r food_detect t c a s c2 food_keys d b f Let_def) (simp add: food_reco_def)
qed

section \<open>Claim about the bounds of a score\<close>

text \<open>
  C6. Every score that \<open>recommend\<close> returns lies in \<open>[0.0, 1.0]\<close>, being the cosine
  similarity, computed as a dot product, of L2-normalized non-negative TF-IDF vectors.
  In doubles the normalized vector of the text \<open>data food\<close> is three times
  \<open>0.5773502691896258\<close>, and its dot product with itself is \<open>1.0000000000000002\<close>: for
  the catalog \<open>food.csv\<close> and the query \<open>data food\<close> the score that \<open>recommend\<close> returns
  is above 1.
\<close>

theorem score_above_one:
  "recommend ieee_lib food_reco (Str (ustr ''data food'')) 1 =
     Inr [\<lparr>title = Str (ustr ''data food''), score = 4503599627370497 / 4503599627370496,
           rating = PyNone, url = PyNone\<rparr>]
   \<and> (1 :: real) < 4503599627370497 / 4503599627370496"
proof -
  have n: "np_argpartition ieee_lib = (\<lambda>a kth. demo_argsort a)"
    "np_argsort ieee_lib = demo_argsort"
    by (simp_all add: ieee_lib_def)
  have fields: "rating_col food_reco = None" "url_col food_reco = None"
    "rows (df food_reco) = [[(ustr ''title'', Str (ustr ''data food'')),
                     (ustr ''__title__'', Str (ustr ''data food''))]]"
    by (simp_all add: food_reco_def)
  have "recommend ieee_lib food_reco (Str (ustr ''data food'')) 1 =
     Inr [\<lparr>title = Str (ustr ''data food''), score = d_d, rating = PyNone, url = PyNone\<rparr>]"
    unfolding recommend_def food_clean Let_def food_sims
    by (simp add: food_nonempty argpartition_call_def take_idx_def n demo_argsort_def
        make_result_def rating_field_def url_field_def fields food_keys)
  then show ?thesis by (simp add: d_d_def)
qed

end
